theory Spec2Isabelle
  imports Complex_Main "HOL-Library.Log_Nat"
begin

section \<open>Numbers\<close>

text \<open>
  The TypeScript type \<^verbatim>\<open>number\<close> is the IEEE 754 double. Every finite double is
  a rational, so a \<^verbatim>\<open>number\<close> is embedded as a rational, and each arithmetic
  operator of the code is the exact operation followed by the rounding of its
  result to the nearest double, a tie going to the double with the even
  significand. The three non-finite values \<^verbatim>\<open>NaN\<close>, \<^verbatim>\<open>Infinity\<close> and
  \<^verbatim>\<open>-Infinity\<close>, the negative zero, and the overflow of a result of size
  \<open>2 ^ 1024\<close> or more have no counterpart; the only way the geometry code
  produces one of them from finite inputs of moderate size is a division by
  zero, so the statements below about the geometry take positive integer sizes
  below \<open>2 ^ 32\<close> (the side of a canvas or of a bitmap is an unsigned 32-bit
  integer), which keeps every divisor away from zero, and the statements
  about the pipeline hold whatever the sizes are. A \<^verbatim>\<open>number\<close> is falsy exactly
  when it is \<open>0\<close>.
\<close>

type_synonym number = rat

text \<open>The integer nearest to \<open>q\<close>, a tie going to the even one.\<close>

definition rne :: "rat \<Rightarrow> int" where
  "rne q =
    (let n = \<lfloor>q\<rfloor>; r = q - of_int n
     in if r < 1 / 2 then n else if 1 / 2 < r then n + 1 else if even n then n else n + 1)"

text \<open>The binary exponent of \<open>x \<noteq> 0\<close>: the \<open>e\<close> with \<open>2 ^ e \<le> \<bar>x\<bar> < 2 ^ (e + 1)\<close>,
  found from the bit lengths of numerator and denominator.\<close>

definition expo :: "rat \<Rightarrow> int" where
  "expo x =
    (let e0 = bitlen (fst (quotient_of \<bar>x\<bar>)) - bitlen (snd (quotient_of \<bar>x\<bar>))
     in if 2 powi e0 \<le> \<bar>x\<bar> then e0 else e0 - 1)"

text \<open>The distance between neighbouring doubles at \<open>x\<close>: a double has 53
  significant bits, and below \<open>2 ^ - 1022\<close> the subnormal doubles are
  \<open>2 ^ - 1074\<close> apart.\<close>

definition ulp :: "rat \<Rightarrow> rat" where
  "ulp x = 2 powi (max (expo x) (- 1022) - 52)"

text \<open>The double nearest to \<open>x\<close>.\<close>

definition fl :: "rat \<Rightarrow> number" where
  "fl x = (if x = 0 then 0 else of_int (rne (x / ulp x)) * ulp x)"

text \<open>The operators \<^verbatim>\<open>/\<close>, \<^verbatim>\<open>*\<close> and \<^verbatim>\<open>-\<close> on numbers.\<close>

definition js_div :: "number \<Rightarrow> number \<Rightarrow> number" where
  "js_div x y = fl (x / y)"

definition js_mul :: "number \<Rightarrow> number \<Rightarrow> number" where
  "js_mul x y = fl (x * y)"

definition js_sub :: "number \<Rightarrow> number \<Rightarrow> number" where
  "js_sub x y = fl (x - y)"

text \<open>\<^verbatim>\<open>Math.round\<close>: the integer nearest to \<open>x\<close>, a tie going to the larger one,
  that is \<open>floor (x + 1/2)\<close> with the sum taken exactly. \<^verbatim>\<open>Math.floor\<close>,
  \<^verbatim>\<open>Math.max\<close>, \<^verbatim>\<open>Math.min\<close> are \<open>floor\<close>, \<open>max\<close> and \<open>min\<close>. None of them
  rounds: the result is one of the arguments or an integer no larger in size
  than the argument.\<close>

definition Math_round :: "number \<Rightarrow> number" where
  "Math_round x = of_int \<lfloor>x + 1 / 2\<rfloor>"

definition Math_floor :: "number \<Rightarrow> number" where
  "Math_floor x = of_int \<lfloor>x\<rfloor>"

text \<open>\<^verbatim>\<open>utils.ts\<close>: \<^verbatim>\<open>clamp(value, min, max) = Math.min(max, Math.max(min, value))\<close>.\<close>

definition clamp :: "number \<Rightarrow> number \<Rightarrow> number \<Rightarrow> number" where
  "clamp val lo hi = min hi (max lo val)"

section \<open>Data model (\<^verbatim>\<open>types.ts\<close>)\<close>

datatype SizeMode = SizeNone | Pixels | Scale

datatype Fit = Keep | Contain | Cover | Stretch

datatype SmoothingQuality = SmoothLow | SmoothMedium | SmoothHigh

datatype BmpResizeQuality = ResizeOff | ResizePixelated | ResizeLow | ResizeMedium | ResizeHigh

text \<open>\<^verbatim>\<open>ConversionOptions\<close>; the fields \<^verbatim>\<open>type\<close>, \<^verbatim>\<open>w\<close> and \<^verbatim>\<open>h\<close> carry the
  prefix \<open>opt_\<close>.\<close>

record ConversionOptions =
  opt_type :: string
  quality :: number
  sizeMode :: SizeMode
  opt_w :: number
  opt_h :: number
  scalePct :: number
  fit :: Fit
  bg :: string
  smoothing :: bool
  smoothingQuality :: SmoothingQuality
  bmpResizeQuality :: BmpResizeQuality

record OutputDimensions =
  width :: number
  height :: number

record DrawRect =
  sx :: number
  sy :: number
  sw :: number
  sh :: number
  dx :: number
  dy :: number
  dw :: number
  dh :: number

section \<open>Geometry (\<^verbatim>\<open>conversion.ts\<close>)\<close>

text \<open>\<^verbatim>\<open>computeDrawRects\<close>. The guard \<^verbatim>\<open>!destWidth || !destHeight\<close> is the
  falsiness test on numbers. The \<^verbatim>\<open>switch\<close> has \<^verbatim>\<open>cover\<close> share its branch
  with \<^verbatim>\<open>default\<close>; the type \<open>Fit\<close> has no other value.\<close>

definition computeDrawRects ::
  "number \<Rightarrow> number \<Rightarrow> number \<Rightarrow> number \<Rightarrow> Fit \<Rightarrow> DrawRect" where
  "computeDrawRects sourceWidth sourceHeight destWidth destHeight mode =
    (if destWidth = 0 \<or> destHeight = 0 then
       \<lparr>sx = 0, sy = 0, sw = sourceWidth, sh = sourceHeight,
        dx = 0, dy = 0, dw = sourceWidth, dh = sourceHeight\<rparr>
     else
       let fitMode =
         (if mode = Keep \<and> (destWidth \<noteq> sourceWidth \<or> destHeight \<noteq> sourceHeight)
          then Stretch else mode)
       in case fitMode of
         Keep \<Rightarrow>
           \<lparr>sx = 0, sy = 0, sw = sourceWidth, sh = sourceHeight,
            dx = 0, dy = 0, dw = sourceWidth, dh = sourceHeight\<rparr>
       | Stretch \<Rightarrow>
           \<lparr>sx = 0, sy = 0, sw = sourceWidth, sh = sourceHeight,
            dx = 0, dy = 0, dw = destWidth, dh = destHeight\<rparr>
       | Contain \<Rightarrow>
           (let sourceAspectRatio = js_div sourceWidth sourceHeight;
                destAspectRatio = js_div destWidth destHeight;
                dw' = (if sourceAspectRatio > destAspectRatio
                       then destWidth
                       else Math_round (js_mul destHeight sourceAspectRatio));
                dh' = (if sourceAspectRatio > destAspectRatio
                       then Math_round (js_div destWidth sourceAspectRatio)
                       else destHeight);
                dx' = Math_floor (js_div (js_sub destWidth dw') 2);
                dy' = Math_floor (js_div (js_sub destHeight dh') 2)
            in \<lparr>sx = 0, sy = 0, sw = sourceWidth, sh = sourceHeight,
                dx = dx', dy = dy', dw = dw', dh = dh'\<rparr>)
       | Cover \<Rightarrow>
           (let sourceAspectRatio = js_div sourceWidth sourceHeight;
                destAspectRatio = js_div destWidth destHeight;
                sw' = (if sourceAspectRatio > destAspectRatio
                       then Math_round (js_mul sourceHeight destAspectRatio)
                       else sourceWidth);
                sh' = (if sourceAspectRatio > destAspectRatio
                       then sourceHeight
                       else Math_round (js_div sourceWidth destAspectRatio));
                sx' = Math_floor (js_div (js_sub sourceWidth sw') 2);
                sy' = Math_floor (js_div (js_sub sourceHeight sh') 2)
            in \<lparr>sx = sx', sy = sy', sw = sw', sh = sh',
                dx = 0, dy = 0, dw = destWidth, dh = destHeight\<rparr>))"

text \<open>\<^verbatim>\<open>computeOutputSize\<close>. \<^verbatim>\<open>options.w && options.h\<close>, \<^verbatim>\<open>options.w\<close> and
  \<^verbatim>\<open>options.h\<close> in condition position are the falsiness tests.\<close>

definition computeOutputSize ::
  "number \<Rightarrow> number \<Rightarrow> ConversionOptions \<Rightarrow> OutputDimensions" where
  "computeOutputSize sourceWidth sourceHeight options =
    (if sizeMode options = SizeNone then
       \<lparr>width = sourceWidth, height = sourceHeight\<rparr>
     else if sizeMode options = Scale then
       (let scale = js_div (clamp (scalePct options) 1 1000) 100
        in \<lparr>width = max 1 (Math_round (js_mul sourceWidth scale)),
            height = max 1 (Math_round (js_mul sourceHeight scale))\<rparr>)
     else
       (let aspectRatio = js_div sourceWidth sourceHeight
        in if opt_w options \<noteq> 0 \<and> opt_h options \<noteq> 0 then
             \<lparr>width = opt_w options, height = opt_h options\<rparr>
           else if opt_w options \<noteq> 0 then
             \<lparr>width = opt_w options, height = Math_round (js_div (opt_w options) aspectRatio)\<rparr>
           else if opt_h options \<noteq> 0 then
             \<lparr>width = Math_round (js_mul (opt_h options) aspectRatio), height = opt_h options\<rparr>
           else
             \<lparr>width = sourceWidth, height = sourceHeight\<rparr>))"

section \<open>File names (\<^verbatim>\<open>utils.ts\<close>)\<close>

text \<open>A string is the list of its code units. The character class
  \<^verbatim>\<open>[\\/:*?"<>|]\<close> of \<^verbatim>\<open>safeFilename\<close> holds nine characters: the backslash
  (code \<open>0x5C\<close>), the slash, the colon, the asterisk, the question mark, the
  double quote (code \<open>0x22\<close>), the two angle brackets and the bar.\<close>

definition invalidChar :: "char \<Rightarrow> bool" where
  "invalidChar c \<longleftrightarrow>
     c = CHR 0x5C \<or> c = CHR ''/'' \<or> c = CHR '':'' \<or> c = CHR ''*'' \<or> c = CHR ''?'' \<or>
     c = CHR 0x22 \<or> c = CHR ''<'' \<or> c = CHR ''>'' \<or> c = CHR ''|''"

text \<open>\<^verbatim>\<open>safeFilename(name) = name.replace(/[\\/:*?"<>|]+/g, '_')\<close>: the global
  replacement scans from the left; where the class matches, the greedy \<^verbatim>\<open>+\<close>
  takes every following character of the class too, the whole match becomes one
  underscore, and the scan goes on behind the match.\<close>

function safeFilename :: "string \<Rightarrow> string" where
  "safeFilename [] = []"
| "safeFilename (c # cs) =
     (if invalidChar c then CHR ''_'' # safeFilename (dropWhile invalidChar cs)
      else c # safeFilename cs)"
  by pat_completeness auto
termination
  by (relation "measure length") (auto simp: less_Suc_eq_le length_dropWhile_le)

text \<open>\<^verbatim>\<open>name.replace(/\.[^.]+$/, '')\<close>, the first step of the file name in
  \<^verbatim>\<open>convertImage\<close>: the leftmost position where a dot is followed by one or
  more characters other than a dot, up to the end of the string; the match, when
  there is one, is deleted.\<close>

fun stripExt :: "string \<Rightarrow> string" where
  "stripExt [] = []"
| "stripExt (c # cs) =
     (if c = CHR ''.'' \<and> cs \<noteq> [] \<and> CHR ''.'' \<notin> set cs then []
      else c # stripExt cs)"

definition extFromMime :: "string \<Rightarrow> string" where
  "extFromMime mime =
    (if mime = ''image/jpeg'' then ''jpg''
     else if mime = ''image/png'' then ''png''
     else if mime = ''image/webp'' then ''webp''
     else if mime = ''image/avif'' then ''avif''
     else ''img'')"

text \<open>The two lines of \<^verbatim>\<open>convertImage\<close> that derive the output name:
  \<^verbatim>\<open>base = safeFilename(item.name.replace(/\.[^.]+$/, ''))\<close> and
  \<^verbatim>\<open>outputName = `${base}.${extFromMime(options.type)}`\<close>.\<close>

definition outputName :: "string \<Rightarrow> string \<Rightarrow> string" where
  "outputName name mime = safeFilename (stripExt name) @ ''.'' @ extFromMime mime"

section \<open>Items and decoded images (\<^verbatim>\<open>types.ts\<close>)\<close>

datatype Status = Ready | Converting | Done | Error

record Blob =
  blob_type :: string
  blob_size :: number

record Output =
  out_blob :: Blob
  out_type :: string
  out_name :: string
  out_size :: number
  out_width :: number
  out_height :: number

text \<open>A \<^verbatim>\<open>File\<close>, an \<^verbatim>\<open>HTMLImageElement\<close> and a canvas are opaque handles. An
  \<^verbatim>\<open>ImageBitmap\<close> is a handle (its identity, the \<^verbatim>\<open>!==\<close> of the pipeline
  compares it) with its pixel size.\<close>

type_synonym File = nat

text \<open>\<^verbatim>\<open>Item\<close>; the fields \<^verbatim>\<open>id\<close>, \<^verbatim>\<open>file\<close>, \<^verbatim>\<open>name\<close>, \<^verbatim>\<open>type\<close>, \<^verbatim>\<open>size\<close>,
  \<^verbatim>\<open>width\<close>, \<^verbatim>\<open>height\<close> and \<^verbatim>\<open>output\<close> carry the prefix \<open>item_\<close>; an optional
  field that is \<^verbatim>\<open>undefined\<close> is \<open>None\<close>.\<close>

record Item =
  item_id :: string
  item_file :: File
  item_name :: string
  item_type :: string
  item_size :: number
  previewUrl :: "string option"
  item_width :: "number option"
  item_height :: "number option"
  status :: Status
  error :: "string option"
  item_output :: "Output option"

record ImageBitmap =
  bmp_id :: nat
  bmp_width :: number
  bmp_height :: number

text \<open>\<^verbatim>\<open>DecodedImage\<close>: the \<^verbatim>\<open>kind\<close> tag is the constructor; each carries its
  drawable and the \<^verbatim>\<open>width\<close> and \<^verbatim>\<open>height\<close> fields.\<close>

datatype DecodedImage =
    DecodedBitmap ImageBitmap number number
  | DecodedImg nat number number

fun decoded_width :: "DecodedImage \<Rightarrow> number" where
  "decoded_width (DecodedBitmap b wd ht) = wd"
| "decoded_width (DecodedImg i wd ht) = wd"

fun decoded_height :: "DecodedImage \<Rightarrow> number" where
  "decoded_height (DecodedBitmap b wd ht) = ht"
| "decoded_height (DecodedImg i wd ht) = ht"

section \<open>Thrown values and collaborators\<close>

text \<open>What a collaborator may throw: an \<^verbatim>\<open>Error\<close> instance with its message, or
  a value that is not an \<^verbatim>\<open>Error\<close>: a string, \<^verbatim>\<open>undefined\<close>, \<^verbatim>\<open>null\<close>, a
  boolean, an integer (a bigint of any size, or a number that is an integer
  below \<open>10 ^ 21\<close> in size), or another object, given by the string that its
  conversion to a string yields, \<^verbatim>\<open>[object Object]\<close> for a plain object. A
  number with a fraction and the non-finite numbers, whose text is their
  shortest decimal that reads back as the same double, and symbols are not
  modelled; nor is an \<^verbatim>\<open>Error\<close> object whose \<^verbatim>\<open>message\<close> has been replaced by a
  value other than a string, or an object whose conversion to a string itself
  throws (one without a prototype, say), for which \<^verbatim>\<open>String\<close> does not
  return.\<close>

datatype thrown =
    ErrorObj string
  | StringVal string
  | UndefinedVal
  | NullVal
  | BoolVal bool
  | IntegerVal int
  | ObjectVal string

text \<open>The decimal digits of a natural number, as \<^verbatim>\<open>String\<close> writes them.\<close>

fun decimal :: "nat \<Rightarrow> string" where
  "decimal n =
     (if n < 10 then [''0123456789'' ! n]
      else decimal (n div 10) @ [''0123456789'' ! (n mod 10)])"

declare decimal.simps [simp del]

text \<open>\<open>errorText\<close> is the expression of the \<^verbatim>\<open>catch\<close> block,
  \<^verbatim>\<open>error instanceof Error ? error.message : String(error)\<close>.\<close>

fun errorText :: "thrown \<Rightarrow> string" where
  "errorText (ErrorObj message) = message"
| "errorText (StringVal s) = s"
| "errorText UndefinedVal = ''undefined''"
| "errorText NullVal = ''null''"
| "errorText (BoolVal b) = (if b then ''true'' else ''false'')"
| "errorText (IntegerVal n) = (if n < 0 then CHR ''-'' # decimal (nat (- n)) else decimal (nat n))"
| "errorText (ObjectVal s) = s"

text \<open>A 2D context; the field says whether \<^verbatim>\<open>'imageSmoothingQuality' in ctx\<close>.\<close>

record Context =
  ctx_id :: nat
  has_imageSmoothingQuality :: bool

text \<open>What the pipeline draws: \<^verbatim>\<open>drawSource.bmp\<close> or \<^verbatim>\<open>drawSource.img\<close>.\<close>

datatype Drawable = BitmapSource nat | ImgSource nat

text \<open>Every call the pipeline makes out of its own code, in the order made. A call
  is recorded when it is made, whether or not it then throws.\<close>

datatype event =
    EvDecode File
  | EvMakeCanvas number number
  | EvGetContext nat
  | EvFillRect string number number
  | EvClearRect number number
  | EvSmoothingEnabled bool
  | EvSmoothingQuality SmoothingQuality
  | EvCreateImageBitmap nat number number BmpResizeQuality
  | EvClose nat
  | EvDrawImage Drawable DrawRect
  | EvCanvasToBlob nat string number
  | EvRender

text \<open>The collaborators: the capability flag of \<^verbatim>\<open>constants.ts\<close>, the three
  functions of \<^verbatim>\<open>canvas.ts\<close> that the pipeline imports (the test suite replaces
  exactly these), the browser's canvas and bitmap calls, and the form the
  options are read from. A result \<open>Inl v\<close>, or \<open>Some v\<close> for a call without a
  value, is the call throwing \<open>v\<close> (for an awaited call: its promise rejecting with
  \<open>v\<close>). \<^verbatim>\<open>getContext\<close> returning \<^verbatim>\<open>null\<close> is \<open>Inr None\<close>.\<close>

record Env =
  supports_createImageBitmap :: bool
  decodeImage :: "File \<Rightarrow> thrown + DecodedImage"
  makeCanvas :: "number \<Rightarrow> number \<Rightarrow> thrown + nat"
  getContext :: "nat \<Rightarrow> thrown + Context option"
  fillRect :: "Context \<Rightarrow> string \<Rightarrow> number \<Rightarrow> number \<Rightarrow> thrown option"
  clearRect :: "Context \<Rightarrow> number \<Rightarrow> number \<Rightarrow> thrown option"
  createImageBitmap :: "ImageBitmap \<Rightarrow> number \<Rightarrow> number \<Rightarrow> BmpResizeQuality \<Rightarrow> thrown + ImageBitmap"
  drawImage :: "Context \<Rightarrow> Drawable \<Rightarrow> DrawRect \<Rightarrow> thrown option"
  canvasToBlob :: "nat \<Rightarrow> string \<Rightarrow> number \<Rightarrow> thrown + Blob"
  readOptions :: ConversionOptions

section \<open>Sequencing calls that may throw\<close>

text \<open>A step of the \<^verbatim>\<open>try\<close> block takes the calls made so far and returns its
  value, or what it threw, with the calls made by then.\<close>

type_synonym 'a step = "event list \<Rightarrow> (thrown + 'a) \<times> event list"

definition ret :: "'a \<Rightarrow> 'a step" where
  "ret x = (\<lambda>t. (Inr x, t))"

definition throw :: "thrown \<Rightarrow> 'a step" where
  "throw v = (\<lambda>t. (Inl v, t))"

definition call :: "event \<Rightarrow> thrown + 'a \<Rightarrow> 'a step" where
  "call ev r = (\<lambda>t. (r, t @ [ev]))"

definition callVoid :: "event \<Rightarrow> thrown option \<Rightarrow> unit step" where
  "callVoid ev r = call ev (case r of None \<Rightarrow> Inr () | Some v \<Rightarrow> Inl v)"

definition andThen :: "'a step \<Rightarrow> ('a \<Rightarrow> 'b step) \<Rightarrow> 'b step" where
  "andThen m f = (\<lambda>t. case m t of (Inl v, t') \<Rightarrow> (Inl v, t') | (Inr x, t') \<Rightarrow> f x t')"

section \<open>The conversion pipeline (\<^verbatim>\<open>conversion.ts\<close>)\<close>

definition maybeResizeBitmap ::
  "Env \<Rightarrow> ImageBitmap \<Rightarrow> number \<Rightarrow> number \<Rightarrow> number \<Rightarrow> number \<Rightarrow> ConversionOptions
     \<Rightarrow> ImageBitmap step" where
  "maybeResizeBitmap env bmp sourceWidth sourceHeight destWidth destHeight options =
    (if \<not> supports_createImageBitmap env then ret bmp
     else if bmpResizeQuality options = ResizeOff then ret bmp
     else if fit options = Cover \<or> fit options = Contain then ret bmp
     else if destWidth = sourceWidth \<and> destHeight = sourceHeight then ret bmp
     else
       andThen
         (call (EvCreateImageBitmap (bmp_id bmp) destWidth destHeight (bmpResizeQuality options))
            (createImageBitmap env bmp destWidth destHeight (bmpResizeQuality options)))
         (\<lambda>resized. andThen (callVoid (EvClose (bmp_id bmp)) None) (\<lambda>_. ret resized)))"

text \<open>The lines of the \<^verbatim>\<open>try\<close> block from \<^verbatim>\<open>let drawSource = decoded\<close> to the
  end of the \<^verbatim>\<open>if (decoded.kind === 'bitmap')\<close>: the draw source with the working
  source size.\<close>

definition chooseDrawSource ::
  "Env \<Rightarrow> DecodedImage \<Rightarrow> number \<Rightarrow> number \<Rightarrow> ConversionOptions
     \<Rightarrow> (DecodedImage \<times> number \<times> number) step" where
  "chooseDrawSource env decoded destWidth destHeight options =
    (let sourceWidth = decoded_width decoded;
         sourceHeight = decoded_height decoded
     in case decoded of
          DecodedBitmap bmp wd ht \<Rightarrow>
            andThen
              (maybeResizeBitmap env bmp sourceWidth sourceHeight destWidth destHeight options)
              (\<lambda>resized.
                 if bmp_id resized \<noteq> bmp_id bmp then
                   ret (DecodedBitmap resized (bmp_width resized) (bmp_height resized),
                        bmp_width resized, bmp_height resized)
                 else ret (decoded, sourceWidth, sourceHeight))
        | DecodedImg img wd ht \<Rightarrow> ret (decoded, sourceWidth, sourceHeight))"

fun drawable :: "DecodedImage \<Rightarrow> Drawable" where
  "drawable (DecodedBitmap bmp wd ht) = BitmapSource (bmp_id bmp)"
| "drawable (DecodedImg img wd ht) = ImgSource img"

text \<open>\<^verbatim>\<open>if (drawSource.kind === 'bitmap') drawSource.bmp.close()\<close>.\<close>

fun closeDrawSource :: "DecodedImage \<Rightarrow> unit step" where
  "closeDrawSource (DecodedBitmap bmp wd ht) = callVoid (EvClose (bmp_id bmp)) None"
| "closeDrawSource (DecodedImg img wd ht) = ret ()"

text \<open>The body of the \<^verbatim>\<open>try\<close> block of \<^verbatim>\<open>convertImage\<close> is written in two
  parts and the whole. The first part, from \<^verbatim>\<open>makeCanvas\<close> to the smoothing
  settings: the canvas and its context, cleared or filled.\<close>

definition prepareContext ::
  "Env \<Rightarrow> ConversionOptions \<Rightarrow> number \<Rightarrow> number \<Rightarrow> (nat \<times> Context) step" where
  "prepareContext env options destWidth destHeight =
    andThen (call (EvMakeCanvas destWidth destHeight) (makeCanvas env destWidth destHeight)) (\<lambda>canvas.
    andThen (call (EvGetContext canvas) (getContext env canvas)) (\<lambda>ctxo.
    case ctxo of
      None \<Rightarrow> throw (ErrorObj ''2D canvas context not available.'')
    | Some ctx \<Rightarrow>
    andThen
      (if opt_type options = ''image/jpeg''
       then callVoid (EvFillRect (bg options) destWidth destHeight)
              (fillRect env ctx (bg options) destWidth destHeight)
       else callVoid (EvClearRect destWidth destHeight)
              (clearRect env ctx destWidth destHeight)) (\<lambda>_.
    andThen (callVoid (EvSmoothingEnabled (smoothing options)) None) (\<lambda>_.
    andThen
      (if smoothing options \<and> has_imageSmoothingQuality ctx
       then callVoid (EvSmoothingQuality (smoothingQuality options)) None
       else ret ()) (\<lambda>_.
    ret (canvas, ctx))))))"

text \<open>The second part, from \<^verbatim>\<open>let drawSource = decoded\<close> to the value assigned to
  \<^verbatim>\<open>item.output\<close>: the optional resize, the draw, the close, the encoding and
  the output name.\<close>

definition drawAndEncode ::
  "Env \<Rightarrow> Item \<Rightarrow> ConversionOptions \<Rightarrow> DecodedImage \<Rightarrow> nat \<Rightarrow> Context \<Rightarrow> number \<Rightarrow> number
     \<Rightarrow> Output step" where
  "drawAndEncode env item options decoded canvas ctx destWidth destHeight =
    andThen (chooseDrawSource env decoded destWidth destHeight options)
      (\<lambda>(drawSource, sourceWidth, sourceHeight).
    let rect = computeDrawRects sourceWidth sourceHeight destWidth destHeight (fit options)
    in
    andThen (callVoid (EvDrawImage (drawable drawSource) rect)
               (drawImage env ctx (drawable drawSource) rect)) (\<lambda>_.
    andThen (closeDrawSource drawSource) (\<lambda>_.
    andThen (call (EvCanvasToBlob canvas (opt_type options) (quality options))
               (canvasToBlob env canvas (opt_type options) (quality options))) (\<lambda>blob.
    ret \<lparr>out_blob = blob, out_type = blob_type blob,
         out_name = outputName (item_name item) (opt_type options),
         out_size = blob_size blob, out_width = destWidth, out_height = destHeight\<rparr>))))"

text \<open>The whole: the decode and the output size, then the two parts above.\<close>

definition convertImage_try :: "Env \<Rightarrow> Item \<Rightarrow> ConversionOptions \<Rightarrow> Output step" where
  "convertImage_try env item options =
    andThen (call (EvDecode (item_file item)) (decodeImage env (item_file item))) (\<lambda>decoded.
    let dims = computeOutputSize (decoded_width decoded) (decoded_height decoded) options;
        destWidth = width dims;
        destHeight = height dims
    in
    andThen (prepareContext env options destWidth destHeight) (\<lambda>(canvas, ctx).
    drawAndEncode env item options decoded canvas ctx destWidth destHeight))"

text \<open>\<^verbatim>\<open>convertImage\<close>: the two assignments before the \<^verbatim>\<open>try\<close>, then either the
  two at its end or the two of the \<^verbatim>\<open>catch\<close> block. The result is the item as
  it is when the promise resolves, and the calls made. One call of the \<^verbatim>\<open>async\<close>
  function is taken from its start to its resolution: at its three \<^verbatim>\<open>await\<close>s
  other tasks may run, but none of them writes to this item (\<^verbatim>\<open>convertOne\<close>
  leaves an item alone while its status is \<^verbatim>\<open>converting\<close>), and the canvas and
  the bitmaps belong to this call.\<close>

definition convertImage ::
  "Env \<Rightarrow> Item \<Rightarrow> ConversionOptions \<Rightarrow> event list \<Rightarrow> Item \<times> event list" where
  "convertImage env item options t =
    (let item1 = item\<lparr>status := Converting, error := None\<rparr>
     in case convertImage_try env item1 options t of
          (Inr out, t') \<Rightarrow> (item1\<lparr>item_output := Some out, status := Done\<rparr>, t')
        | (Inl v, t') \<Rightarrow> (item1\<lparr>status := Error, error := Some (errorText v)\<rparr>, t'))"

section \<open>The item list and the scheduler (\<^verbatim>\<open>main.ts\<close>)\<close>

text \<open>The module state of \<^verbatim>\<open>main.ts\<close>: the map \<^verbatim>\<open>items\<close> from ids to items, with
  the calls made so far. \<^verbatim>\<open>render()\<close> only redraws the table; it is recorded as
  a call.\<close>

record App =
  items :: "string \<rightharpoonup> Item"
  calls :: "event list"

text \<open>\<^verbatim>\<open>convertOne(id, optionsOverride)\<close>. The item is shared with the map, so what
  \<^verbatim>\<open>convertImage\<close> assigns to it shows in \<^verbatim>\<open>items\<close>.\<close>

definition convertOne :: "Env \<Rightarrow> string \<Rightarrow> ConversionOptions option \<Rightarrow> App \<Rightarrow> App" where
  "convertOne env ident optionsOverride app =
    (case items app ident of
       None \<Rightarrow> app
     | Some item \<Rightarrow>
         if status item = Converting then app
         else
           let item1 = item\<lparr>status := Converting, error := None\<rparr>;
               t1 = calls app @ [EvRender];
               options = (case optionsOverride of Some opts \<Rightarrow> opts | None \<Rightarrow> readOptions env);
               (item2, t2) = convertImage env item1 options t1
           in \<lparr>items = (items app)(ident \<mapsto> item2), calls = t2 @ [EvRender]\<rparr>)"

text \<open>The concurrency level of \<^verbatim>\<open>convertAll\<close>,
  \<^verbatim>\<open>clamp((navigator.hardwareConcurrency || 4) - 1, 1, 6)\<close>. The hint is \<open>None\<close>
  where the browser has no such property (\<^verbatim>\<open>undefined\<close>); \<^verbatim>\<open>||\<close> replaces a
  falsy hint, \<^verbatim>\<open>undefined\<close> or \<open>0\<close>, by \<open>4\<close>.\<close>

definition convertAll_concurrency :: "number option \<Rightarrow> number" where
  "convertAll_concurrency hardwareConcurrency =
    clamp (js_sub (case hardwareConcurrency of
                     None \<Rightarrow> 4
                   | Some hint \<Rightarrow> if hint = 0 then 4 else hint) 1) 1 6"

section \<open>The fixtures of the test suite (\<^verbatim>\<open>conversion.test.ts\<close>)\<close>

text \<open>The item, the bitmaps, the blob and the mocked collaborators that the cases
  of the test suite share: decoding gives a 100 by 100 bitmap, the canvas has a
  context, nothing throws, and a resize gives the 50 by 50 bitmap of the resize
  case.\<close>

text \<open>The options every case starts from.\<close>

definition mockOptions :: ConversionOptions where
  "mockOptions =
    \<lparr>opt_type = ''image/png'', quality = 9 / 10, sizeMode = SizeNone,
     opt_w = 0, opt_h = 0, scalePct = 100, fit = Keep, bg = ''#FFFFFF'',
     smoothing = True, smoothingQuality = SmoothHigh, bmpResizeQuality = ResizeOff\<rparr>"

definition mockItem :: Item where
  "mockItem =
    \<lparr>item_id = ''1'', item_file = 0, item_name = ''test.png'', item_type = ''image/png'',
     item_size = 1000, previewUrl = None, item_width = None, item_height = None,
     status = Ready, error = None, item_output = None\<rparr>"

definition mockBitmap :: ImageBitmap where
  "mockBitmap = \<lparr>bmp_id = 1, bmp_width = 100, bmp_height = 100\<rparr>"

definition mockResizedBitmap :: ImageBitmap where
  "mockResizedBitmap = \<lparr>bmp_id = 2, bmp_width = 50, bmp_height = 50\<rparr>"

definition mockBlob :: Blob where
  "mockBlob = \<lparr>blob_type = ''image/png'', blob_size = 4\<rparr>"

definition mockEnv :: Env where
  "mockEnv =
    \<lparr>supports_createImageBitmap = True,
     decodeImage = (\<lambda>file. Inr (DecodedBitmap mockBitmap 100 100)),
     makeCanvas = (\<lambda>wd ht. Inr 0),
     getContext = (\<lambda>canvas. Inr (Some \<lparr>ctx_id = 0, has_imageSmoothingQuality = True\<rparr>)),
     fillRect = (\<lambda>ctx style wd ht. None),
     clearRect = (\<lambda>ctx wd ht. None),
     createImageBitmap = (\<lambda>bmp wd ht q. Inr mockResizedBitmap),
     drawImage = (\<lambda>ctx src rect. None),
     canvasToBlob = (\<lambda>canvas ty q. Inr mockBlob),
     readOptions = mockOptions\<rparr>"

text \<open>The case "should handle context creation failure": \<^verbatim>\<open>getContext\<close> returns
  \<^verbatim>\<open>null\<close>.\<close>

definition noContextEnv :: Env where
  "noContextEnv = mockEnv\<lparr>getContext := (\<lambda>canvas. Inr None)\<rparr>"


text \<open>An encoder without AVIF: \<^verbatim>\<open>canvasToBlob\<close> rejects for \<^verbatim>\<open>image/avif\<close> with the
  error of \<^verbatim>\<open>canvas.ts\<close> and encodes every other type.\<close>

definition noAvifEnv :: Env where
  "noAvifEnv =
    mockEnv\<lparr>canvasToBlob := (\<lambda>canvas ty q.
      if ty = ''image/avif'' then Inl (ErrorObj ''Canvas encoding failed.'') else Inr mockBlob)\<rparr>"

section \<open>The specification's wording of the file name\<close>

text \<open>Four definitions that follow the words of the specification, not the code.
  "The display name without its extension": the part before the last dot, for a
  name that has a dot and does not end in one; the name itself otherwise.\<close>

definition spec_removeExtension :: "string \<Rightarrow> string" where
  "spec_removeExtension name =
    (if CHR ''.'' \<in> set name \<and> last name \<noteq> CHR ''.''
     then rev (tl (dropWhile (\<lambda>c. c \<noteq> CHR ''.'') (rev name)))
     else name)"

text \<open>"Each occurrence of any of the characters replaced by an underscore".\<close>

definition spec_replaceEach :: "string \<Rightarrow> string" where
  "spec_replaceEach s = map (\<lambda>c. if invalidChar c then CHR ''_'' else c) s"

text \<open>"Each maximal run of the characters replaced by a single underscore": a
  character of the class that directly follows one of the class is deleted, and
  then each one left is replaced.\<close>

fun dropFollowing :: "string \<Rightarrow> string" where
  "dropFollowing (a # b # cs) =
     (if invalidChar a \<and> invalidChar b then dropFollowing (a # cs)
      else a # dropFollowing (b # cs))"
| "dropFollowing cs = cs"

definition spec_replaceRuns :: "string \<Rightarrow> string" where
  "spec_replaceRuns s = spec_replaceEach (dropFollowing s)"

text \<open>"The canonical extension for the target MIME type".\<close>

definition spec_extension :: "string \<Rightarrow> string" where
  "spec_extension mime =
    (case map_of [(''image/png'', ''png''), (''image/jpeg'', ''jpg''),
                  (''image/webp'', ''webp''), (''image/avif'', ''avif'')] mime of
       Some ext \<Rightarrow> ext
     | None \<Rightarrow> ''img'')"

text \<open>The output name as the specification words it, every occurrence replaced.\<close>

definition spec_outputName :: "string \<Rightarrow> string \<Rightarrow> string" where
  "spec_outputName name mime =
    spec_replaceEach (spec_removeExtension name) @ ''.'' @ spec_extension mime"

section \<open>The specification's wording of the scaled size\<close>

text \<open>"\<^verbatim>\<open>max(1, round(w*s/100))\<close>" for the clamped percentage \<open>s\<close>, as a formula
  over the rationals, and read as an expression over doubles, the product first
  and the quotient second.\<close>

definition spec_scaled :: "rat \<Rightarrow> rat \<Rightarrow> rat" where
  "spec_scaled w pct = max 1 (of_int \<lfloor>w * clamp pct 1 1000 / 100 + 1 / 2\<rfloor>)"

definition spec_scaled_double :: "number \<Rightarrow> number \<Rightarrow> number" where
  "spec_scaled_double w pct =
     max 1 (of_int \<lfloor>js_div (js_mul w (clamp pct 1 1000)) 100 + 1 / 2\<rfloor>)"

section \<open>Rounding to the nearest double\<close>

text \<open>The integer nearest to \<open>q\<close> is within a half of \<open>q\<close>, and grows with \<open>q\<close>.\<close>

lemma rne_of_int: "rne (of_int n) = n"
  by (simp add: rne_def)

lemma rne_bounds: "of_int (rne q) - 1 / 2 \<le> q \<and> q \<le> of_int (rne q) + 1 / 2"
proof -
  define n where "n = \<lfloor>q\<rfloor>"
  have "of_int n \<le> q" "q < of_int n + 1" unfolding n_def by linarith+
  moreover have "rne q =
    (if q - of_int n < 1 / 2 then n else if 1 / 2 < q - of_int n then n + 1
     else if even n then n else n + 1)"
    by (simp add: rne_def n_def Let_def)
  ultimately show ?thesis by (auto split: if_splits)
qed

lemma rne_mono: assumes "q \<le> r" shows "rne q \<le> rne r"
proof (rule ccontr)
  assume "\<not> rne q \<le> rne r"
  then have lt: "rne r + 1 \<le> rne q" by simp
  then have "(of_int (rne r) :: rat) + 1 \<le> of_int (rne q)"
    by (metis of_int_1 of_int_add of_int_le_iff)
  with rne_bounds [of q] rne_bounds [of r] assms have "q = r" by linarith
  with lt show False by simp
qed

text \<open>Powers of two with integer exponents.\<close>

lemma pow2_pos: "(0::rat) < 2 powi e"
  by simp

lemma pow2_add: "(2::rat) powi (m + n) = 2 powi m * 2 powi n"
  by (simp add: power_int_add)

lemma pow2_nat: "0 \<le> e \<Longrightarrow> (2::rat) powi e = of_int (2 ^ nat e)"
  by (simp add: power_int_def)

lemma pow2_le_iff: "(2::rat) powi m \<le> 2 powi n \<longleftrightarrow> m \<le> n"
proof
  assume "(2::rat) powi m \<le> 2 powi n"
  show "m \<le> n"
  proof (rule ccontr)
    assume "\<not> m \<le> n"
    then have "(2::rat) powi n < 2 powi m" by (intro power_int_strict_increasing) simp_all
    with \<open>(2::rat) powi m \<le> 2 powi n\<close> show False by simp
  qed
next
  assume "m \<le> n"
  then show "(2::rat) powi m \<le> 2 powi n" by (intro power_int_increasing) simp_all
qed

lemma pow2_less_iff: "(2::rat) powi m < 2 powi n \<longleftrightarrow> m < n"
  using pow2_le_iff [of n m] by (simp add: not_le [symmetric])

text \<open>The binary exponent: \<open>2 ^ expo x \<le> \<bar>x\<bar> < 2 ^ (expo x + 1)\<close>, and it is the
  only integer with this property.\<close>

lemma expo_bounds:
  assumes "x \<noteq> 0"
  shows "2 powi (expo x) \<le> \<bar>x\<bar>" and "\<bar>x\<bar> < 2 powi (expo x + 1)"
proof -
  obtain a b where q: "quotient_of \<bar>x\<bar> = (a, b)" by (cases "quotient_of \<bar>x\<bar>")
  then have b: "0 < b" and x: "\<bar>x\<bar> = of_int a / of_int b"
    by (auto simp: quotient_of_denom_pos quotient_of_div)
  have bpos: "(0::rat) < of_int b" using b by simp
  have "0 < \<bar>x\<bar>" using assms by simp
  then have "(0::rat) < of_int a" using bpos unfolding x by (simp add: zero_less_divide_iff)
  then have a: "0 < a" by simp
  let ?la = "bitlen a" and ?lb = "bitlen b"
  from bitlen_bounds [OF a] have a1: "2 ^ nat (?la - 1) \<le> a" and a2: "a < 2 ^ nat ?la" by auto
  from bitlen_bounds [OF b] have b1: "2 ^ nat (?lb - 1) \<le> b" and b2: "b < 2 ^ nat ?lb" by auto
  have la: "0 < ?la" using a bitlen_eq_zero_iff [of a] bitlen_nonneg [of a] by linarith
  have lb: "0 < ?lb" using b bitlen_eq_zero_iff [of b] bitlen_nonneg [of b] by linarith
  have A1: "(2::rat) powi (?la - 1) \<le> of_int a"
    using a1 la by (simp only: pow2_nat of_int_le_iff)
  have A2: "(of_int a :: rat) < 2 powi ?la"
    using a2 la by (simp only: pow2_nat of_int_less_iff)
  have B1: "(2::rat) powi (?lb - 1) \<le> of_int b"
    using b1 lb by (simp only: pow2_nat of_int_le_iff)
  have B2: "(of_int b :: rat) < 2 powi ?lb"
    using b2 lb by (simp only: pow2_nat of_int_less_iff)
  have up: "\<bar>x\<bar> < 2 powi (?la - ?lb + 1)"
  proof -
    have "(2::rat) powi ?la = 2 powi (?la - ?lb + 1) * 2 powi (?lb - 1)"
      using pow2_add [of "?la - ?lb + 1" "?lb - 1"] by simp
    then have "of_int a < (2::rat) powi (?la - ?lb + 1) * 2 powi (?lb - 1)"
      using A2 by simp
    also have "\<dots> \<le> 2 powi (?la - ?lb + 1) * of_int b"
      using B1 by (intro mult_left_mono) simp_all
    finally show ?thesis using bpos by (simp add: x pos_divide_less_eq)
  qed
  have lo: "2 powi (?la - ?lb - 1) < \<bar>x\<bar>"
  proof -
    have "(2::rat) powi (?la - ?lb - 1) * of_int b < 2 powi (?la - ?lb - 1) * 2 powi ?lb"
      using B2 by (intro mult_strict_left_mono) simp_all
    also have "\<dots> = 2 powi (?la - 1)"
      using pow2_add [of "?la - ?lb - 1" "?lb"] by simp
    also have "\<dots> \<le> of_int a" by (rule A1)
    finally show ?thesis using bpos by (simp add: x pos_less_divide_eq)
  qed
  have e: "expo x = (if 2 powi (?la - ?lb) \<le> \<bar>x\<bar> then ?la - ?lb else ?la - ?lb - 1)"
    by (simp add: expo_def q Let_def)
  show "2 powi (expo x) \<le> \<bar>x\<bar>" using lo by (auto simp: e)
  show "\<bar>x\<bar> < 2 powi (expo x + 1)" using up by (auto simp: e)
qed

lemma expo_unique:
  assumes "2 powi e \<le> \<bar>x\<bar>" "\<bar>x\<bar> < 2 powi (e + 1)"
  shows "expo x = e"
proof -
  have "0 < \<bar>x\<bar>" using assms(1) pow2_pos [of e] by linarith
  then have nz: "x \<noteq> 0" by simp
  from expo_bounds [OF nz] assms
  have "(2::rat) powi e < 2 powi (expo x + 1)" "(2::rat) powi (expo x) < 2 powi (e + 1)"
    by linarith+
  then have "e < expo x + 1" "expo x < e + 1" 
    by (simp_all only: pow2_less_iff)
  then show ?thesis by simp
qed

lemma expo_le_pos: "0 < x \<Longrightarrow> 2 powi (expo x) \<le> x"
  using expo_bounds(1) [of x] by simp

lemma expo_gt_pos: "0 < x \<Longrightarrow> x < 2 powi (expo x + 1)"
  using expo_bounds(2) [of x] by simp

lemma rne_0: "rne 0 = 0"
  by (simp add: rne_def)

lemma expo_mono:
  assumes "0 < x" "x \<le> y"
  shows "expo x \<le> expo y"
proof -
  have nz: "x \<noteq> 0" "y \<noteq> 0" using assms by auto
  have y: "0 < y" using assms by simp
  have "2 powi (expo x) \<le> x" using assms(1) by (rule expo_le_pos)
  also have "x \<le> y" by fact
  also have "y < 2 powi (expo y + 1)" using y by (rule expo_gt_pos)
  finally have "expo x < expo y + 1" by (simp only: pow2_less_iff)
  then show ?thesis by simp
qed

text \<open>The significand \<open>x / ulp x\<close> of a positive \<open>x\<close> lies below \<open>2 ^ 53\<close>, and
  at or above \<open>2 ^ 52\<close> unless \<open>x\<close> is subnormal.\<close>

lemma ulp_pos: "0 < ulp x"
  by (simp add: ulp_def)

lemma ulp_times: "9007199254740992 * ulp x = 2 powi (max (expo x) (- 1022) + 1)"
proof -
  have e: "max (expo x) (- 1022) + 1 = 53 + (max (expo x) (- 1022) - 52)" by simp
  show ?thesis unfolding ulp_def by (subst e, subst pow2_add) simp
qed

lemma ulp_times': "4503599627370496 * ulp x = 2 powi (max (expo x) (- 1022))"
proof -
  have e: "max (expo x) (- 1022) = 52 + (max (expo x) (- 1022) - 52)" by simp
  show ?thesis unfolding ulp_def by (subst (2) e, subst pow2_add) simp
qed

lemma scaled_less:
  assumes "0 < x"
  shows "x / ulp x < 2 powi 53"
proof -
  have "x < 2 powi (expo x + 1)" using assms by (rule expo_gt_pos)
  also have "\<dots> \<le> 2 powi (max (expo x) (- 1022) + 1)" by (simp add: pow2_le_iff)
  finally show ?thesis using ulp_pos [of x] by (simp add: pos_divide_less_eq ulp_times)
qed

lemma scaled_ge:
  assumes "0 < x" "- 1022 \<le> expo x"
  shows "2 powi 52 \<le> x / ulp x"
proof -
  have "2 powi (max (expo x) (- 1022)) = (2::rat) powi (expo x)" using assms(2) by (simp add: max_def)
  also have "\<dots> \<le> x" using assms(1) by (rule expo_le_pos)
  finally show ?thesis using ulp_pos [of x] by (simp add: pos_le_divide_eq ulp_times')
qed

lemma rne_pow2: "0 \<le> e \<Longrightarrow> of_int (rne (2 powi e)) = (2::rat) powi e"
  by (simp add: pow2_nat rne_of_int del: of_int_power)

text \<open>Rounding is monotone on the non-negative numbers: within a binade the
  step is the same, and a power of two between two binades is a double.\<close>

lemma fl_nonneg:
  assumes "0 \<le> x"
  shows "0 \<le> fl x"
proof -
  have "0 \<le> x / ulp x" using assms ulp_pos [of x] by simp
  then have "rne 0 \<le> rne (x / ulp x)" by (rule rne_mono)
  then have "0 \<le> rne (x / ulp x)" by (simp add: rne_0)
  then show ?thesis using ulp_pos [of x] by (simp add: fl_def)
qed

lemma fl_le_pow2:
  assumes "0 < x"
  shows "fl x \<le> 2 powi (max (expo x) (- 1022) + 1)"
proof -
  have "rne (x / ulp x) \<le> rne (2 powi 53)"
    using scaled_less [OF assms] by (intro rne_mono) simp
  then have "(of_int (rne (x / ulp x)) :: rat) \<le> of_int (rne (2 powi 53))" by (simp only: of_int_le_iff)
  also have "\<dots> = 2 powi 53" by (rule rne_pow2) simp
  finally have "of_int (rne (x / ulp x)) * ulp x \<le> 2 powi 53 * ulp x"
    using ulp_pos [of x] by (intro mult_right_mono) simp_all
  then show ?thesis using assms by (simp add: fl_def ulp_times)
qed

lemma fl_ge_pow2:
  assumes "0 < x" "- 1022 \<le> expo x"
  shows "2 powi (expo x) \<le> fl x"
proof -
  have "rne (2 powi 52) \<le> rne (x / ulp x)"
    using scaled_ge [OF assms] by (intro rne_mono)
  then have "(of_int (rne (2 powi 52)) :: rat) \<le> of_int (rne (x / ulp x))" by (simp only: of_int_le_iff)
  moreover have "of_int (rne (2 powi 52)) = (2::rat) powi 52" by (rule rne_pow2) simp
  ultimately have "2 powi 52 * ulp x \<le> of_int (rne (x / ulp x)) * ulp x"
    using ulp_pos [of x] by (intro mult_right_mono) simp_all
  moreover have "max (expo x) (- 1022) = expo x" using assms(2) by simp
  ultimately show ?thesis using assms by (simp add: fl_def ulp_times')
qed

lemma fl_mono:
  assumes "0 \<le> x" "x \<le> y"
  shows "fl x \<le> fl y"
proof (cases "x = 0")
  case True
  then show ?thesis using fl_nonneg [of y] assms by (simp add: fl_def)
next
  case False
  then have x: "0 < x" and y: "0 < y" using assms by auto
  let ?ex = "max (expo x) (- 1022)" and ?ey = "max (expo y) (- 1022)"
  have le: "?ex \<le> ?ey" using expo_mono [OF x assms(2)] by simp
  show ?thesis
  proof (cases "?ex = ?ey")
    case True
    then have u: "ulp x = ulp y" by (simp add: ulp_def)
    have "x / ulp y \<le> y / ulp y" using assms(2) ulp_pos [of y] by (simp add: divide_right_mono)
    then have "rne (x / ulp y) \<le> rne (y / ulp y)" by (rule rne_mono)
    then have "(of_int (rne (x / ulp y)) :: rat) * ulp y \<le> of_int (rne (y / ulp y)) * ulp y"
      using ulp_pos [of y] by (intro mult_right_mono) simp_all
    then show ?thesis using x y by (simp add: fl_def u)
  next
    case False
    from le False have lt: "?ex < ?ey" by (rule le_neq_trans)
    have ey: "- 1022 \<le> expo y" "?ey = expo y" using lt by linarith+
    have "fl x \<le> 2 powi (?ex + 1)" by (rule fl_le_pow2 [OF x])
    also have "\<dots> \<le> 2 powi (expo y)"
    proof -
      have "?ex + 1 \<le> expo y" using lt ey(2) by linarith
      then show ?thesis by (simp only: pow2_le_iff)
    qed
    also have "\<dots> \<le> fl y" by (rule fl_ge_pow2 [OF y ey(1)])
    finally show ?thesis .
  qed
qed

text \<open>A number \<open>m * 2 ^ k\<close> with \<open>0 < m < 2 ^ 53\<close> and \<open>k\<close> no less than \<open>- 1074\<close>
  is a double; so is every integer from \<open>0\<close> to \<open>2 ^ 53\<close>, and every result of
  rounding.\<close>

lemma fl_exact:
  assumes m: "0 < m" "m < 2 ^ 53" and k: "- 1074 \<le> k"
  shows "fl (of_int m * 2 powi k) = of_int m * 2 powi k"
proof -
  let ?x = "of_int m * 2 powi k :: rat"
  have x: "0 < ?x" using m by simp
  have "(of_int m :: rat) < of_int (2 ^ 53)" using m(2) by (simp only: of_int_less_iff)
  then have "(of_int m :: rat) < 2 powi 53" by simp
  then have "?x < 2 powi 53 * 2 powi k" by (intro mult_strict_right_mono) simp_all
  also have "\<dots> = 2 powi (k + 53)" using pow2_add [of 53 k] by (simp add: add.commute)
  finally have "2 powi (expo ?x) < (2::rat) powi (k + 53)"
    using expo_le_pos [OF x] by linarith
  then have "expo ?x < k + 53" by (simp only: pow2_less_iff)
  then have E: "max (expo ?x) (- 1022) - 52 \<le> k" using k by simp
  define j where "j = k - (max (expo ?x) (- 1022) - 52)"
  have j: "0 \<le> j" using E by (simp add: j_def)
  have "2 powi k = (2::rat) powi j * ulp ?x"
    unfolding ulp_def j_def using pow2_add [of "k - (max (expo ?x) (- 1022) - 52)" "max (expo ?x) (- 1022) - 52"]
    by simp
  then have xs: "?x = of_int (m * 2 ^ nat j) * ulp ?x"
    using j by (simp add: pow2_nat)
  have "?x / ulp ?x = of_int (m * 2 ^ nat j)"
    using ulp_pos [of ?x] by (subst xs) simp
  then have "rne (?x / ulp ?x) = m * 2 ^ nat j" by (simp only: rne_of_int)
  then have "fl ?x = of_int (m * 2 ^ nat j) * ulp ?x" using x by (simp add: fl_def)
  then show ?thesis by (rule trans [OF _ xs [symmetric]])
qed

lemma fl_of_int:
  assumes "0 \<le> n" "n \<le> 2 ^ 53"
  shows "fl (of_int n) = of_int n"
proof (cases "n = 0 \<or> n = 2 ^ 53")
  case True
  then show ?thesis
  proof
    assume "n = 0" then show ?thesis by (simp add: fl_def)
  next
    assume n: "n = 2 ^ 53"
    have "fl (of_int 1 * 2 powi 53) = of_int 1 * 2 powi 53" by (rule fl_exact) simp_all
    then show ?thesis by (simp add: n)
  qed
next
  case False
  then have "0 < n" "n < 2 ^ 53" using assms by auto
  from fl_exact [OF this, of 0] show ?thesis by simp
qed



text \<open>In the normal range the relative error of rounding is at most
  \<open>2 ^ - 53\<close>.\<close>

lemma fl_error:
  assumes "2 powi (- 1022) \<le> x"
  shows "\<bar>fl x - x\<bar> \<le> x / 2 ^ 53"
proof -
  have x: "0 < x" using assms pow2_pos [of "- 1022"] by linarith
  have "(2::rat) powi (- 1022) < 2 powi (expo x + 1)"
    using assms expo_gt_pos [OF x] by linarith
  then have "- 1022 < expo x + 1" by (simp only: pow2_less_iff)
  then have ex: "- 1022 \<le> expo x" by simp
  then have u: "ulp x = 2 powi (expo x - 52)" by (simp add: ulp_def max_def)
  define q where "q = x / ulp x"
  have xq: "x = q * ulp x" using ulp_pos [of x] by (simp add: q_def)
  have "\<bar>of_int (rne q) - q\<bar> \<le> 1 / 2" using rne_bounds [of q] by linarith
  then have "\<bar>of_int (rne q) - q\<bar> * ulp x \<le> 1 / 2 * ulp x"
    using ulp_pos [of x] by (intro mult_right_mono) simp_all
  moreover have "fl x - x = (of_int (rne q) - q) * ulp x"
    using x xq by (simp add: fl_def q_def algebra_simps)
  ultimately have "\<bar>fl x - x\<bar> \<le> ulp x / 2"
    using ulp_pos [of x] by (simp add: abs_mult)
  also have "ulp x / 2 = 2 powi (expo x) / 2 ^ 53"
    unfolding u using pow2_add [of "expo x - 52" "- 1"] pow2_add [of "expo x" "- 53"] 
    by (simp add: power_int_minus field_simps)
  also have "\<dots> \<le> x / 2 ^ 53" using expo_le_pos [OF x] by (intro divide_right_mono) simp_all
  finally show ?thesis .
qed

subsection \<open>Rounding to an integer\<close>



lemma round_near:
  assumes "\<bar>x - y\<bar> < 1"
  shows "\<bar>\<lfloor>x + 1 / 2 :: rat\<rfloor> - \<lfloor>y + 1 / 2\<rfloor>\<bar> \<le> 1"
  using assms by linarith

text \<open>A number of at least \<open>2 ^ - 64\<close> is in the normal range.\<close>

lemma not_tiny:
  assumes "1 / 2 ^ 64 \<le> x"
  shows "2 powi (- 1022) \<le> (x::rat)"
proof -
  have "(2::rat) powi (- 1022) \<le> 2 powi (- 64)" by (simp only: pow2_le_iff)
  also have "\<dots> = 1 / 2 ^ 64" by (simp add: power_int_minus)
  finally show ?thesis using assms by simp
qed


text \<open>Some doubles: the nearest to a tenth, to \<open>58 / 100\<close> and to a third; above
  \<open>2 ^ 53\<close> the doubles are the even integers, and a tie goes to the one with
  the even significand; rounding is symmetric about zero.\<close>

lemma fl_examples:
  "fl (1 / 10) = 3602879701896397 / 36028797018963968"
  "fl (58 / 100) = 5224175567749775 / 9007199254740992"
  "fl (1 / 3) = 6004799503160661 / 18014398509481984"
  "fl (9007199254740993) = 9007199254740992"
  "fl (9007199254740995) = 9007199254740996"
  "fl (- (1 / 10)) = - (3602879701896397 / 36028797018963968)"
  by code_simp+

section \<open>Evaluating floors of quotients\<close>





section \<open>The dimension resolver\<close>

text \<open>Outside pixels mode the resolver keeps a positive integer source at 1 or
  more on each axis: \<^verbatim>\<open>none\<close> returns the source, \<^verbatim>\<open>scale\<close> takes the maximum
  with 1.\<close>

lemma computeOutputSize_not_pixels_ge_1:
  assumes "0 < sW" "0 < sH" "sizeMode options \<noteq> Pixels"
  shows "1 \<le> width (computeOutputSize (of_int sW) (of_int sH) options)
       \<and> 1 \<le> height (computeOutputSize (of_int sW) (of_int sH) options)"
proof (cases "sizeMode options")
  case SizeNone
  have "(1::rat) \<le> of_int sW" "(1::rat) \<le> of_int sH"
    using assms(1,2) by (simp_all add: int_one_le_iff_zero_less)
  with SizeNone show ?thesis by (simp add: computeOutputSize_def)
next
  case Scale
  then show ?thesis by (simp add: computeOutputSize_def Let_def)
next
  case Pixels
  with assms(3) show ?thesis by simp
qed

text \<open>C1. The claim: for positive integer source sizes and every options value,
  pixels mode with only one of width and height requested included, the
  resolver returns a width and a height of at least 1. In pixels mode with only
  a width the height is \<^verbatim>\<open>Math.round(options.w / aspectRatio)\<close> with no lower
  bound: a 400 by 100 source with a requested width of 1 gives the height
  \<open>round (1 / 4) = 0\<close>; the quotients \<open>400 / 100\<close> and \<open>1 / 4\<close> are doubles.\<close>

theorem computeOutputSize_pixels_zero_height:
  "computeOutputSize 400 100 (mockOptions\<lparr>sizeMode := Pixels, opt_w := 1, opt_h := 0\<rparr>)
     = \<lparr>width = 1, height = 0\<rparr>"
  by code_simp

text \<open>With only a height requested the width is
  \<^verbatim>\<open>Math.round(options.h * aspectRatio)\<close>: for a 1 by 98 source and a requested
  height of 49 the double nearest to \<open>1 / 98\<close> lies below it, the product with
  49 rounds to the double just below a half, and the width is 0.\<close>

lemma computeOutputSize_pixels_zero_width:
  "computeOutputSize 1 98 (mockOptions\<lparr>sizeMode := Pixels, opt_w := 0, opt_h := 49\<rparr>)
     = \<lparr>width = 0, height = 49\<rparr>"
  by code_simp

subsection \<open>Scale mode\<close>

text \<open>The two roundings of the scale branch, the quotient and the product, move
  the result by less than 1 from \<open>w * c / 100\<close> for a width below \<open>2 ^ 32\<close> and a
  clamped percentage \<open>c\<close>.\<close>

lemma scale_error:
  fixes w c :: rat
  assumes c: "1 \<le> c" "c \<le> 1000" and w: "1 \<le> w" "w < 2 ^ 32"
  shows "\<bar>js_mul w (js_div c 100) - w * c / 100\<bar> < 1"
proof -
  define q where "q = c / 100"
  define x where "x = w * q"
  define p where "p = w * fl q"
  have q: "1 / 100 \<le> q" "q \<le> 10" using c by (simp_all add: q_def)
  have x: "0 < x" using q w by (simp add: x_def)
  have "w * q < 2 ^ 32 * 10"
    using q w by (intro mult_less_le_imp_less) simp_all
  then have xb: "x < 42949672960" by (simp add: x_def)
  have "2 powi (- 1022) \<le> q" using q(1) by (intro not_tiny) simp
  then have "\<bar>fl q - q\<bar> \<le> q / 2 ^ 53" by (rule fl_error)
  then have e1: "\<bar>fl q - q\<bar> \<le> q / 9007199254740992" by simp
  have "\<bar>p - x\<bar> = w * \<bar>fl q - q\<bar>"
    using w by (simp add: p_def x_def abs_mult flip: right_diff_distrib)
  also have "\<dots> \<le> w * (q / 9007199254740992)" using e1 w by (intro mult_left_mono) simp_all
  finally have px: "\<bar>p - x\<bar> \<le> x / 9007199254740992" by (simp add: x_def)
  have "1 * (1 / 200) \<le> w * fl q"
  proof (intro mult_mono)
    show "1 \<le> w" by fact
    show "1 / 200 \<le> fl q" using e1 q by linarith
  qed (use w in simp_all)
  then have pl: "1 / 200 \<le> p" by (simp add: p_def)
  then have "2 powi (- 1022) \<le> p" by (intro not_tiny) simp
  then have "\<bar>fl p - p\<bar> \<le> p / 2 ^ 53" by (rule fl_error)
  then have e2: "\<bar>fl p - p\<bar> \<le> p / 9007199254740992" by simp
  have "\<bar>fl p - x\<bar> < 1" using e2 px xb x by linarith
  then show ?thesis by (simp add: js_mul_def js_div_def p_def x_def q_def)
qed

text \<open>Taking the maximum with 1 does not move two integers apart.\<close>

lemma max_one_near:
  fixes a b :: int
  assumes "\<bar>a - b\<bar> \<le> 1"
  shows "\<bar>max 1 (of_int a) - max 1 (of_int b :: rat)\<bar> \<le> 1"
proof -
  have "(of_int \<bar>a - b\<bar> :: rat) \<le> 1" using assms by simp
  then have "\<bar>of_int a - of_int b :: rat\<bar> \<le> 1" by simp
  then show ?thesis by (auto simp: max_def abs_if split: if_splits)
qed

lemma scaled_near:
  fixes w :: int
  assumes "0 < w" "w < 2 ^ 32"
  shows "\<bar>max 1 (of_int \<lfloor>js_mul (of_int w) (js_div (clamp pct 1 1000) 100) + 1 / 2\<rfloor>)
           - spec_scaled (of_int w) pct\<bar> \<le> 1"
proof -
  have c: "1 \<le> clamp pct 1 1000" "clamp pct 1 1000 \<le> 1000" by (simp_all add: clamp_def)
  have "1 \<le> w" using assms(1) by simp
  then have w1: "(1::rat) \<le> of_int w" by simp
  have "(of_int w :: rat) < of_int (2 ^ 32)" using assms(2) by (simp only: of_int_less_iff)
  then have w2: "(of_int w :: rat) < 2 ^ 32" by simp
  note w = w1 w2
  from scale_error [OF c w] show ?thesis
    unfolding spec_scaled_def by (intro max_one_near round_near)
qed

text \<open>C7. The claim: in scale mode the target width is
  \<open>max 1 (round (sourceW * clamp scalePct 1 1000 / 100))\<close>, and the height
  likewise. For a 25 by 25 source at 58 percent the formula gives 15, over the
  rationals (\<open>25 * 58 / 100 = 14.5\<close>, and the tie goes up) and also when it is
  read as an expression over doubles (\<open>25 * 58\<close> and \<open>1450 / 100\<close> are exact).
  The code divides first: the double nearest to \<open>58 / 100\<close> lies below it, the
  product with 25 rounds to a double below \<open>14.5\<close>, and the target is 14 by
  14.\<close>

theorem computeOutputSize_scale_counterexample:
  "computeOutputSize 25 25 (mockOptions\<lparr>sizeMode := Scale, scalePct := 58\<rparr>)
     = \<lparr>width = 14, height = 14\<rparr> \<and>
   spec_scaled 25 58 = 15 \<and> spec_scaled_double 25 58 = 15 \<and>
   width (computeOutputSize 25 25 (mockOptions\<lparr>sizeMode := Scale, scalePct := 58\<rparr>))
     \<noteq> spec_scaled 25 58"
  by code_simp

text \<open>C7, amended. In scale mode, for positive integer source sizes below
  \<open>2 ^ 32\<close> and any requested percentage, the scale factor is the double nearest
  to \<open>clamp scalePct 1 1000 / 100\<close>, and the target width is the larger of 1 and
  the integer nearest to the double nearest to the product of the source width
  and the scale factor, a tie going up; the height likewise. Each is an integer
  of at least 1 and differs by at most 1 from the value of the formula
  \<open>max 1 (round (source * clamp scalePct 1 1000 / 100))\<close> over the rationals.\<close>

theorem computeOutputSize_scale:
  fixes sW sH :: int
  assumes "0 < sW" "sW < 2 ^ 32" "0 < sH" "sH < 2 ^ 32" "sizeMode options = Scale"
  shows "let r = computeOutputSize (of_int sW) (of_int sH) options;
             scale = fl (clamp (scalePct options) 1 1000 / 100)
         in width r = max 1 (of_int \<lfloor>fl (of_int sW * scale) + 1 / 2\<rfloor>) \<and>
            height r = max 1 (of_int \<lfloor>fl (of_int sH * scale) + 1 / 2\<rfloor>) \<and>
            1 \<le> width r \<and> 1 \<le> height r \<and>
            \<bar>width r - spec_scaled (of_int sW) (scalePct options)\<bar> \<le> 1 \<and>
            \<bar>height r - spec_scaled (of_int sH) (scalePct options)\<bar> \<le> 1"
proof -
  have r: "computeOutputSize (of_int sW) (of_int sH) options =
    \<lparr>width = max 1 (of_int \<lfloor>js_mul (of_int sW) (js_div (clamp (scalePct options) 1 1000) 100) + 1 / 2\<rfloor>),
     height = max 1 (of_int \<lfloor>js_mul (of_int sH) (js_div (clamp (scalePct options) 1 1000) 100) + 1 / 2\<rfloor>)\<rparr>"
    using assms(5) by (simp add: computeOutputSize_def Let_def Math_round_def)
  note nw = scaled_near [OF assms(1,2), of "scalePct options"]
  note nh = scaled_near [OF assms(3,4), of "scalePct options"]
  show ?thesis
    unfolding r Let_def using nw nh by (simp add: js_mul_def js_div_def)
qed

text \<open>The two examples of the claim, a 100 by 100 source at 5000 percent and at
  half a percent; the 25 by 25 source at 58 percent; a 3 by 7 source at 50
  percent, where \<open>1.5\<close> and \<open>3.5\<close> are exact and the ties go up.\<close>

theorem computeOutputSize_scale_witness:
  "(0::int) < 100 \<and> (100::int) < 2 ^ 32 \<and> (0::int) < 25 \<and> (25::int) < 2 ^ 32 \<and>
   (0::int) < 3 \<and> (3::int) < 2 ^ 32 \<and> (0::int) < 7 \<and> (7::int) < 2 ^ 32 \<and>
   sizeMode (mockOptions\<lparr>sizeMode := Scale, scalePct := 5000\<rparr>) = Scale \<and>
   sizeMode (mockOptions\<lparr>sizeMode := Scale, scalePct := 1 / 2\<rparr>) = Scale \<and>
   sizeMode (mockOptions\<lparr>sizeMode := Scale, scalePct := 58\<rparr>) = Scale \<and>
   sizeMode (mockOptions\<lparr>sizeMode := Scale, scalePct := 50\<rparr>) = Scale \<and>
   computeOutputSize 100 100 (mockOptions\<lparr>sizeMode := Scale, scalePct := 5000\<rparr>)
     = \<lparr>width = 1000, height = 1000\<rparr> \<and>
   computeOutputSize 100 100 (mockOptions\<lparr>sizeMode := Scale, scalePct := 1 / 2\<rparr>)
     = \<lparr>width = 1, height = 1\<rparr> \<and>
   computeOutputSize 25 25 (mockOptions\<lparr>sizeMode := Scale, scalePct := 58\<rparr>)
     = \<lparr>width = 14, height = 14\<rparr> \<and>
   computeOutputSize 3 7 (mockOptions\<lparr>sizeMode := Scale, scalePct := 50\<rparr>)
     = \<lparr>width = 2, height = 4\<rparr> \<and>
   \<bar>14 - spec_scaled 25 58\<bar> \<le> 1"
proof -
  have v: "computeOutputSize 100 100 (mockOptions\<lparr>sizeMode := Scale, scalePct := 5000\<rparr>)
       = \<lparr>width = 1000, height = 1000\<rparr>"
    "computeOutputSize 100 100 (mockOptions\<lparr>sizeMode := Scale, scalePct := 1 / 2\<rparr>)
       = \<lparr>width = 1, height = 1\<rparr>"
    "computeOutputSize 25 25 (mockOptions\<lparr>sizeMode := Scale, scalePct := 58\<rparr>)
       = \<lparr>width = 14, height = 14\<rparr>"
    "computeOutputSize 3 7 (mockOptions\<lparr>sizeMode := Scale, scalePct := 50\<rparr>)
       = \<lparr>width = 2, height = 4\<rparr>"
    by code_simp+
  show ?thesis
    using computeOutputSize_scale [of 100 100 "mockOptions\<lparr>sizeMode := Scale, scalePct := 5000\<rparr>"]
      computeOutputSize_scale [of 100 100 "mockOptions\<lparr>sizeMode := Scale, scalePct := 1 / 2\<rparr>"]
      computeOutputSize_scale [of 25 25 "mockOptions\<lparr>sizeMode := Scale, scalePct := 58\<rparr>"]
      computeOutputSize_scale [of 3 7 "mockOptions\<lparr>sizeMode := Scale, scalePct := 50\<rparr>"]
    by (simp add: v Let_def)
qed

section \<open>The rect compositor\<close>







text \<open>Over the rationals the product \<open>55 * (3 / 22)\<close> is \<open>7.5\<close> and rounds to 8;
  the code, rounding the quotient and the product to doubles, gets 7.\<close>

lemma computeDrawRects_contain_rounding:
  "dw (computeDrawRects 3 22 8 55 Contain) = 7 \<and> \<lfloor>55 * (3 / 22) + 1 / 2 :: rat\<rfloor> = 8"
  by code_simp

text \<open>The fit \<^verbatim>\<open>cover\<close> crops the source: a 3 by 30 source into a 6 by 59
  canvas keeps 29 of its 30 rows, \<open>3 / (6 / 59)\<close> rounding to a double below
  \<open>29.5\<close>.\<close>

lemma computeDrawRects_cover_example:
  "computeDrawRects 3 30 6 59 Cover
     = \<lparr>sx = 0, sy = 0, sw = 3, sh = 29, dx = 0, dy = 0, dw = 6, dh = 59\<rparr>"
  by code_simp

section \<open>File names\<close>

subsection \<open>Removing the extension\<close>

lemma removeExtension_Cons:
  assumes "\<not> (c = CHR ''.'' \<and> cs \<noteq> [] \<and> CHR ''.'' \<notin> set cs)"
  shows "spec_removeExtension (c # cs) = c # spec_removeExtension cs"
proof (cases "CHR ''.'' \<in> set cs")
  case True
  then have ne: "cs \<noteq> []" by auto
  from True have dw: "dropWhile (\<lambda>c. c \<noteq> CHR ''.'') (rev cs) \<noteq> []" by simp
  have "dropWhile (\<lambda>c. c \<noteq> CHR ''.'') (rev (c # cs))
      = dropWhile (\<lambda>c. c \<noteq> CHR ''.'') (rev cs) @ [c]"
    using True by (simp add: dropWhile_append)
  then show ?thesis using True ne dw by (simp add: spec_removeExtension_def)
next
  case False
  then show ?thesis using assms by (cases "cs = []") (auto simp: spec_removeExtension_def)
qed

lemma removeExtension_dot:
  assumes "cs \<noteq> []" "CHR ''.'' \<notin> set cs"
  shows "spec_removeExtension (CHR ''.'' # cs) = []"
proof -
  have "last cs \<noteq> CHR ''.''" using assms by (metis last_in_set)
  moreover have "\<forall>x\<in>set (rev cs). x \<noteq> CHR ''.''"
    using assms by auto
  then have "dropWhile (\<lambda>c. c \<noteq> CHR ''.'') (rev cs @ ''.'') = ''.''"
    by (simp add: dropWhile_append)
  ultimately show ?thesis using assms by (simp add: spec_removeExtension_def)
qed

lemma stripExt_removeExtension: "stripExt name = spec_removeExtension name"
proof (induction name)
  case Nil
  then show ?case by (simp add: spec_removeExtension_def)
next
  case (Cons c cs)
  show ?case
  proof (cases "c = CHR ''.'' \<and> cs \<noteq> [] \<and> CHR ''.'' \<notin> set cs")
    case True
    then show ?thesis by (simp add: removeExtension_dot)
  next
    case False
    then show ?thesis using Cons.IH removeExtension_Cons [OF False] by auto
  qed
qed

subsection \<open>Runs of invalid characters\<close>

lemma dropFollowing_invalid:
  "invalidChar c \<Longrightarrow> dropFollowing (c # cs) = c # dropFollowing (dropWhile invalidChar cs)"
  by (induction cs) auto

lemma dropFollowing_valid:
  "\<not> invalidChar c \<Longrightarrow> dropFollowing (c # cs) = c # dropFollowing cs"
  by (cases cs) auto

lemma safeFilename_replaceRuns: "safeFilename s = spec_replaceRuns s"
proof (induction s rule: safeFilename.induct)
  case 1
  then show ?case by (simp add: spec_replaceRuns_def spec_replaceEach_def)
next
  case (2 c cs)
  then show ?case
    by (simp add: spec_replaceRuns_def spec_replaceEach_def
        dropFollowing_invalid dropFollowing_valid)
qed

lemma safeFilename_valid: "\<forall>c\<in>set s. \<not> invalidChar c \<Longrightarrow> safeFilename s = s"
  by (induction s) auto

lemma last_dropWhile:
  "dropWhile P xs \<noteq> [] \<Longrightarrow> last (dropWhile P xs) = last xs"
  by (induction xs) (auto split: if_splits)

text \<open>The scan does not look back: behind a prefix that ends in a valid character
  it starts afresh.\<close>

lemma safeFilename_append_valid:
  "xs = [] \<or> \<not> invalidChar (last xs)
    \<Longrightarrow> safeFilename (xs @ ys) = safeFilename xs @ safeFilename ys"
proof (induction xs rule: safeFilename.induct)
  case 1
  then show ?case by simp
next
  case (2 c cs)
  show ?case
  proof (cases "invalidChar c")
    case True
    with "2.prems" have ne: "cs \<noteq> []" and lv: "\<not> invalidChar (last cs)"
      by (auto split: if_splits)
    then have ex: "\<exists>x\<in>set cs. \<not> invalidChar x" using last_in_set by blast
    then have dne: "dropWhile invalidChar cs \<noteq> []" by simp
    have app: "dropWhile invalidChar (cs @ ys) = dropWhile invalidChar cs @ ys"
      using ex by (auto simp: dropWhile_append)
    have "\<not> invalidChar (last (dropWhile invalidChar cs))"
      using lv dne by (simp add: last_dropWhile)
    then have "safeFilename (dropWhile invalidChar cs @ ys)
        = safeFilename (dropWhile invalidChar cs) @ safeFilename ys"
      using "2.IH"(1) [OF True] by simp
    then show ?thesis using True app by simp
  next
    case False
    with "2.prems" have "cs = [] \<or> \<not> invalidChar (last cs)" by (auto split: if_splits)
    then show ?thesis using "2.IH"(2) [OF False] False by simp
  qed
qed

lemma safeFilename_run:
  assumes "run \<noteq> []" "\<forall>c\<in>set run. invalidChar c" "ys = [] \<or> \<not> invalidChar (hd ys)"
  shows "safeFilename (run @ ys) = CHR ''_'' # safeFilename ys"
proof -
  obtain r rs where run: "run = r # rs" using assms(1) by (cases run) auto
  have "dropWhile invalidChar (rs @ ys) = dropWhile invalidChar ys"
    using assms(2) run by (simp add: dropWhile_append)
  also have "\<dots> = ys" using assms(3) by (cases ys) auto
  finally show ?thesis using run assms(2) by simp
qed

text \<open>C10. \<^verbatim>\<open>safeFilename\<close> maps each maximal run of one or more characters of
  the class to a single underscore and leaves the rest as it is: a string with
  no character of the class is unchanged, and a non-empty run of characters of
  the class, bounded on the left by the start of the string or a valid
  character and on the right by its end or a valid character, becomes one
  underscore between the sanitized parts before and after it. So distinct names
  collide: \<^verbatim>\<open>a::b\<close> and \<^verbatim>\<open>a:b\<close> both give \<^verbatim>\<open>a_b\<close>.\<close>

theorem safeFilename_runs:
  "(list_all (\<lambda>c. \<not> invalidChar c) s \<longrightarrow> safeFilename s = s) \<and>
   (run \<noteq> [] \<and> list_all invalidChar run \<and>
      (xs = [] \<or> \<not> invalidChar (last xs)) \<and> (ys = [] \<or> \<not> invalidChar (hd ys))
     \<longrightarrow> safeFilename (xs @ run @ ys) = safeFilename xs @ ''_'' @ safeFilename ys) \<and>
   safeFilename ''a::b'' = ''a_b'' \<and> safeFilename ''a:b'' = ''a_b''"
proof (intro conjI impI)
  assume "list_all (\<lambda>c. \<not> invalidChar c) s"
  then show "safeFilename s = s" by (simp add: safeFilename_valid list_all_iff)
next
  assume a: "run \<noteq> [] \<and> list_all invalidChar run \<and>
      (xs = [] \<or> \<not> invalidChar (last xs)) \<and> (ys = [] \<or> \<not> invalidChar (hd ys))"
  then have "safeFilename (run @ ys) = CHR ''_'' # safeFilename ys"
    by (intro safeFilename_run) (auto simp: list_all_iff)
  then show "safeFilename (xs @ run @ ys) = safeFilename xs @ ''_'' @ safeFilename ys"
    using a by (simp add: safeFilename_append_valid)
next
  show "safeFilename ''a::b'' = ''a_b''" by (simp add: invalidChar_def)
next
  show "safeFilename ''a:b'' = ''a_b''" by (simp add: invalidChar_def)
qed

text \<open>Two cases of \<^verbatim>\<open>utils.test.ts\<close>: a name without invalid characters, and the
  run \<^verbatim>\<open><>|\<close> inside \<^verbatim>\<open>file<>|name.txt\<close>.\<close>

theorem safeFilename_runs_witness:
  "list_all (\<lambda>c. \<not> invalidChar c) ''valid-filename_123.txt'' \<and>
   ''<>|'' \<noteq> [] \<and> list_all invalidChar ''<>|'' \<and>
   (''file'' = [] \<or> \<not> invalidChar (last ''file'')) \<and>
   (''name.txt'' = [] \<or> \<not> invalidChar (hd ''name.txt'')) \<and>
   safeFilename ''valid-filename_123.txt'' = ''valid-filename_123.txt'' \<and>
   safeFilename (''file'' @ ''<>|'' @ ''name.txt'') = ''file_name.txt''"
  using safeFilename_runs [of "''valid-filename_123.txt''" "''<>|''" "''file''" "''name.txt''"]
  by (simp add: invalidChar_def)

text \<open>C2. The claim: the output name is the display name without its final
  dot-extension, with each occurrence of a character of the class replaced by
  an underscore, then a dot and the canonical extension. For \<^verbatim>\<open>a::b.jpg\<close> and
  \<^verbatim>\<open>image/png\<close> the code gives \<^verbatim>\<open>a_b.png\<close>, the claim's wording \<^verbatim>\<open>a__b.png\<close>.\<close>

theorem outputName_each_occurrence_counterexample:
  "outputName ''a::b.jpg'' ''image/png'' = ''a_b.png'' \<and>
   spec_outputName ''a::b.jpg'' ''image/png'' = ''a__b.png'' \<and>
   outputName ''a::b.jpg'' ''image/png'' \<noteq> spec_outputName ''a::b.jpg'' ''image/png''"
  by (simp add: outputName_def spec_outputName_def spec_removeExtension_def
      spec_replaceEach_def spec_extension_def extFromMime_def invalidChar_def)

text \<open>C2, amended. The output name is the display name without its final
  dot-extension (the part from the last dot on, when at least one character
  follows that dot), with each maximal run of characters of the class replaced
  by a single underscore, then a dot and the canonical extension (\<^verbatim>\<open>png\<close>,
  \<^verbatim>\<open>jpg\<close>, \<^verbatim>\<open>webp\<close>, \<^verbatim>\<open>avif\<close>, and \<^verbatim>\<open>img\<close> for any other type); \<^verbatim>\<open>my:photo?.jpg\<close>
  with \<^verbatim>\<open>image/png\<close> gives \<^verbatim>\<open>my_photo_.png\<close>, \<^verbatim>\<open>photo.jpg\<close> with \<^verbatim>\<open>image/webp\<close>
  gives \<^verbatim>\<open>photo.webp\<close>.\<close>

theorem outputName_replaces_runs:
  "outputName name mime
     = spec_replaceRuns (spec_removeExtension name) @ ''.'' @ spec_extension mime \<and>
   outputName ''my:photo?.jpg'' ''image/png'' = ''my_photo_.png'' \<and>
   outputName ''photo.jpg'' ''image/webp'' = ''photo.webp''"
proof (intro conjI)
  have "extFromMime mime = spec_extension mime"
    by (simp add: extFromMime_def spec_extension_def)
  then show "outputName name mime
     = spec_replaceRuns (spec_removeExtension name) @ ''.'' @ spec_extension mime"
    by (simp add: outputName_def stripExt_removeExtension safeFilename_replaceRuns)
next
  show "outputName ''my:photo?.jpg'' ''image/png'' = ''my_photo_.png''"
    by (simp add: outputName_def invalidChar_def extFromMime_def)
next
  show "outputName ''photo.jpg'' ''image/webp'' = ''photo.webp''"
    by (simp add: outputName_def invalidChar_def extFromMime_def)
qed

section \<open>The conversion pipeline\<close>

subsection \<open>Running a sequence of calls\<close>

lemma ret_apply: "ret x t = (Inr x, t)"
  by (simp add: ret_def)

lemma throw_apply: "throw v t = (Inl v, t)"
  by (simp add: throw_def)

lemma callVoid_None_apply: "callVoid ev None t = (Inr (), t @ [ev])"
  by (simp add: callVoid_def call_def)

lemma andThen_call_Inr: "andThen (call ev (Inr x)) f t = f x (t @ [ev])"
  by (simp add: andThen_def call_def)

lemma andThen_call_Inl: "andThen (call ev (Inl v)) f t = (Inl v, t @ [ev])"
  by (simp add: andThen_def call_def)

lemma andThen_callVoid_None: "andThen (callVoid ev None) f t = f () (t @ [ev])"
  by (simp add: andThen_def call_def callVoid_def)

lemma andThen_callVoid_Some: "andThen (callVoid ev (Some v)) f t = (Inl v, t @ [ev])"
  by (simp add: andThen_def call_def callVoid_def)

lemma andThen_ret: "andThen (ret x) f t = f x t"
  by (simp add: andThen_def ret_def)

lemma andThen_throw: "andThen (throw v) f t = (Inl v, t)"
  by (simp add: andThen_def throw_def)

lemma andThen_assoc: "andThen (andThen m f) g = andThen m (\<lambda>x. andThen (f x) g)"
  by (auto simp: andThen_def fun_eq_iff split: prod.splits sum.splits)

lemmas step_simps = andThen_assoc ret_apply throw_apply callVoid_None_apply
  andThen_call_Inr andThen_call_Inl andThen_callVoid_None andThen_callVoid_Some
  andThen_ret andThen_throw

lemmas run_defs = convertImage_def convertImage_try_def prepareContext_def drawAndEncode_def
  chooseDrawSource_def
  maybeResizeBitmap_def computeOutputSize_def computeDrawRects_def outputName_def
  extFromMime_def invalidChar_def Let_def step_simps
  mockEnv_def mockItem_def mockOptions_def mockBitmap_def mockResizedBitmap_def mockBlob_def

subsection \<open>What a completed sequence of calls has done\<close>

lemma andThen_Inr:
  "andThen m f t = (Inr y, t') \<longleftrightarrow> (\<exists>x t1. m t = (Inr x, t1) \<and> f x t1 = (Inr y, t'))"
  by (auto simp: andThen_def split: prod.splits sum.splits)

lemma call_Inr: "call ev r t = (Inr x, t1) \<longleftrightarrow> r = Inr x \<and> t1 = t @ [ev]"
  by (auto simp: call_def)

lemma callVoid_Inr: "callVoid ev r t = (Inr u, t1) \<longleftrightarrow> r = None \<and> t1 = t @ [ev]"
  by (auto simp: callVoid_def call_def split: option.splits)

lemma ret_Inr: "ret x t = (Inr y, t1) \<longleftrightarrow> y = x \<and> t1 = t"
  by (auto simp: ret_def)

lemma case_option_throw_Inr:
  "(case ctxo of None \<Rightarrow> throw v | Some ctx \<Rightarrow> g ctx) t = (Inr y, t')
     \<longleftrightarrow> (\<exists>ctx. ctxo = Some ctx \<and> g ctx t = (Inr y, t'))"
  by (cases ctxo) (auto simp: throw_def)

lemmas Inr_simps = andThen_Inr call_Inr callVoid_Inr ret_Inr case_option_throw_Inr

lemma prepareContext_Inr:
  assumes "prepareContext env options dW dH t = (Inr (canvas, ctx), t1)"
  shows "\<exists>ts. t1 = t @ ts \<and> (\<forall>h. EvClose h \<notin> set ts) \<and> (\<forall>d rect. EvDrawImage d rect \<notin> set ts)"
  using assms by (auto simp: prepareContext_def Inr_simps split: if_splits)

lemma maybeResizeBitmap_Inr:
  assumes "maybeResizeBitmap env bmp sW sH dW dH options t = (Inr r, t1)"
  shows "(r = bmp \<and> t1 = t) \<or>
         (createImageBitmap env bmp dW dH (bmpResizeQuality options) = Inr r \<and>
          t1 = t @ [EvCreateImageBitmap (bmp_id bmp) dW dH (bmpResizeQuality options),
                    EvClose (bmp_id bmp)])"
  using assms by (auto simp: maybeResizeBitmap_def Inr_simps split: if_splits)

lemma chooseDrawSource_Inr:
  assumes "chooseDrawSource env (DecodedBitmap bmp wd ht) dW dH options t = (Inr (src, sW, sH), t1)"
      and fresh: "\<forall>dW dH q r. createImageBitmap env bmp dW dH q = Inr r \<longrightarrow> bmp_id r \<noteq> bmp_id bmp"
  shows "(src = DecodedBitmap bmp wd ht \<and> t1 = t) \<or>
         (\<exists>r. createImageBitmap env bmp dW dH (bmpResizeQuality options) = Inr r \<and>
              src = DecodedBitmap r (bmp_width r) (bmp_height r) \<and>
              t1 = t @ [EvCreateImageBitmap (bmp_id bmp) dW dH (bmpResizeQuality options),
                        EvClose (bmp_id bmp)])"
  using assms(1) fresh
  by (auto simp: chooseDrawSource_def Let_def Inr_simps dest!: maybeResizeBitmap_Inr split: if_splits)

lemma closeDrawSource_Inr:
  "closeDrawSource src t = (Inr u, t1) \<longleftrightarrow>
     t1 = t @ (case src of DecodedBitmap b _ _ \<Rightarrow> [EvClose (bmp_id b)] | DecodedImg _ _ _ \<Rightarrow> [])"
  by (cases src) (auto simp: Inr_simps)

lemma drawAndEncode_Inr:
  assumes ok: "drawAndEncode env item options (DecodedBitmap bmp wd ht) canvas ctx dW dH t = (Inr out, t')"
      and fresh: "\<forall>dW dH q r. createImageBitmap env bmp dW dH q = Inr r \<longrightarrow> bmp_id r \<noteq> bmp_id bmp"
  shows "(\<exists>rect. t' = t @ [EvDrawImage (BitmapSource (bmp_id bmp)) rect, EvClose (bmp_id bmp),
                    EvCanvasToBlob canvas (opt_type options) (quality options)])
       \<or> (\<exists>rect r. createImageBitmap env bmp dW dH (bmpResizeQuality options) = Inr r \<and>
             t' = t @ [EvCreateImageBitmap (bmp_id bmp) dW dH (bmpResizeQuality options),
                    EvClose (bmp_id bmp),
                    EvDrawImage (BitmapSource (bmp_id r)) rect, EvClose (bmp_id r),
                    EvCanvasToBlob canvas (opt_type options) (quality options)])"
proof -
  from ok obtain src sW sH t1 where
      ch: "chooseDrawSource env (DecodedBitmap bmp wd ht) dW dH options t = (Inr (src, sW, sH), t1)"
    and rest: "t' = t1 @ [EvDrawImage (drawable src) (computeDrawRects sW sH dW dH (fit options))]
                @ (case src of DecodedBitmap b _ _ \<Rightarrow> [EvClose (bmp_id b)] | DecodedImg _ _ _ \<Rightarrow> [])
                @ [EvCanvasToBlob canvas (opt_type options) (quality options)]"
    by (auto simp: drawAndEncode_def Let_def Inr_simps closeDrawSource_Inr)
  from chooseDrawSource_Inr [OF ch fresh] rest show ?thesis by auto
qed

lemma convertImage_try_success_calls:
  assumes ok: "convertImage_try env item options t = (Inr out, t')"
      and dec: "decodeImage env (item_file item) = Inr (DecodedBitmap bmp wd ht)"
      and fresh: "\<forall>dW dH q r. createImageBitmap env bmp dW dH q = Inr r \<longrightarrow> bmp_id r \<noteq> bmp_id bmp"
  shows "\<exists>pre canvas rect. (\<forall>h. EvClose h \<notin> set pre) \<and> (\<forall>d rect. EvDrawImage d rect \<notin> set pre) \<and>
          (t' = t @ pre @ [EvDrawImage (BitmapSource (bmp_id bmp)) rect, EvClose (bmp_id bmp),
                    EvCanvasToBlob canvas (opt_type options) (quality options)]
          \<or> (\<exists>r. createImageBitmap env bmp (out_width out) (out_height out) (bmpResizeQuality options) = Inr r \<and>
             t' = t @ pre @ [EvCreateImageBitmap (bmp_id bmp) (out_width out) (out_height out) (bmpResizeQuality options),
                    EvClose (bmp_id bmp),
                    EvDrawImage (BitmapSource (bmp_id r)) rect, EvClose (bmp_id r),
                    EvCanvasToBlob canvas (opt_type options) (quality options)]))"
proof -
  let ?dW = "width (computeOutputSize wd ht options)"
  let ?dH = "height (computeOutputSize wd ht options)"
  from ok dec obtain canvas ctx t1 where
      pc: "prepareContext env options ?dW ?dH (t @ [EvDecode (item_file item)]) = (Inr (canvas, ctx), t1)"
    and de: "drawAndEncode env item options (DecodedBitmap bmp wd ht) canvas ctx ?dW ?dH t1 = (Inr out, t')"
    by (auto simp: convertImage_try_def Let_def Inr_simps)
  from prepareContext_Inr [OF pc] obtain ts where
      ts: "t1 = t @ [EvDecode (item_file item)] @ ts" "\<forall>h. EvClose h \<notin> set ts"
        "\<forall>d rect. EvDrawImage d rect \<notin> set ts" by auto
  have out: "out_width out = ?dW" "out_height out = ?dH"
    using de by (auto simp: drawAndEncode_def Let_def Inr_simps)
  have pre: "\<forall>h. EvClose h \<notin> set ([EvDecode (item_file item)] @ ts)"
      "\<forall>d rect. EvDrawImage d rect \<notin> set ([EvDecode (item_file item)] @ ts)"
    using ts(2,3) by simp_all
  from drawAndEncode_Inr [OF de fresh] show ?thesis
    unfolding out ts(1) using pre
    by (elim disjE exE conjE) (intro exI [of _ "[EvDecode (item_file item)] @ ts"] exI conjI, assumption, assumption, simp)+
qed

subsection \<open>Closing on the success path\<close>

lemma count_list_0: "x \<notin> set xs \<Longrightarrow> count_list xs x = 0"
  by (induction xs) auto

text \<open>When the \<^verbatim>\<open>try\<close> block completes on a decoded bitmap, and a resize gives a
  bitmap other than the one it was given, the calls of the run close the decoded
  bitmap exactly once, close the bitmap that was drawn exactly once, and close
  no handle twice.\<close>

lemma convertImage_try_success_closes_once:
  assumes ok: "convertImage_try env item options t = (Inr out, t')"
      and dec: "decodeImage env (item_file item) = Inr (DecodedBitmap bmp wd ht)"
      and fresh: "\<forall>dW dH q r. createImageBitmap env bmp dW dH q = Inr r \<longrightarrow> bmp_id r \<noteq> bmp_id bmp"
  shows "\<exists>ts. t' = t @ ts \<and> count_list ts (EvClose (bmp_id bmp)) = 1 \<and>
           (\<forall>h. count_list ts (EvClose h) \<le> 1) \<and>
           (\<forall>h rect. EvDrawImage (BitmapSource h) rect \<in> set ts \<longrightarrow> count_list ts (EvClose h) = 1)"
proof -
  from convertImage_try_success_calls [OF ok dec fresh] obtain pre canvas rect where
      pre: "\<forall>h. EvClose h \<notin> set pre"
    and pre2: "\<forall>d rect. EvDrawImage d rect \<notin> set pre"
    and shape: "t' = t @ pre @ [EvDrawImage (BitmapSource (bmp_id bmp)) rect, EvClose (bmp_id bmp),
                    EvCanvasToBlob canvas (opt_type options) (quality options)]
          \<or> (\<exists>r. createImageBitmap env bmp (out_width out) (out_height out) (bmpResizeQuality options) = Inr r \<and>
             t' = t @ pre @ [EvCreateImageBitmap (bmp_id bmp) (out_width out) (out_height out) (bmpResizeQuality options),
                    EvClose (bmp_id bmp),
                    EvDrawImage (BitmapSource (bmp_id r)) rect, EvClose (bmp_id r),
                    EvCanvasToBlob canvas (opt_type options) (quality options)])"
    by blast
  have c0: "\<And>h. count_list pre (EvClose h) = 0" using pre by (simp add: count_list_0)
  have nd: "\<And>h rect. EvDrawImage (BitmapSource h) rect \<notin> set pre" using pre2 by blast
  from shape show ?thesis
  proof
    assume a: "t' = t @ pre @ [EvDrawImage (BitmapSource (bmp_id bmp)) rect, EvClose (bmp_id bmp),
                    EvCanvasToBlob canvas (opt_type options) (quality options)]"
    show ?thesis
      by (rule exI [of _ "pre @ [EvDrawImage (BitmapSource (bmp_id bmp)) rect, EvClose (bmp_id bmp),
                    EvCanvasToBlob canvas (opt_type options) (quality options)]"])
         (use a c0 nd in auto)
  next
    assume "\<exists>r. createImageBitmap env bmp (out_width out) (out_height out) (bmpResizeQuality options) = Inr r \<and>
             t' = t @ pre @ [EvCreateImageBitmap (bmp_id bmp) (out_width out) (out_height out) (bmpResizeQuality options),
                    EvClose (bmp_id bmp),
                    EvDrawImage (BitmapSource (bmp_id r)) rect, EvClose (bmp_id r),
                    EvCanvasToBlob canvas (opt_type options) (quality options)]"
    then obtain r where r: "createImageBitmap env bmp (out_width out) (out_height out) (bmpResizeQuality options) = Inr r"
      and a: "t' = t @ pre @ [EvCreateImageBitmap (bmp_id bmp) (out_width out) (out_height out) (bmpResizeQuality options),
                    EvClose (bmp_id bmp),
                    EvDrawImage (BitmapSource (bmp_id r)) rect, EvClose (bmp_id r),
                    EvCanvasToBlob canvas (opt_type options) (quality options)]" by blast
    from fresh r have ne: "bmp_id r \<noteq> bmp_id bmp" by blast
    show ?thesis
      by (rule exI [of _ "pre @ [EvCreateImageBitmap (bmp_id bmp) (out_width out) (out_height out) (bmpResizeQuality options),
                    EvClose (bmp_id bmp),
                    EvDrawImage (BitmapSource (bmp_id r)) rect, EvClose (bmp_id r),
                    EvCanvasToBlob canvas (opt_type options) (quality options)]"])
         (use a c0 nd ne in auto)
  qed
qed

text \<open>Without a context the \<^verbatim>\<open>try\<close> block ends at the \<^verbatim>\<open>throw\<close>, three calls after
  it began, whatever was decoded.\<close>

lemma convertImage_try_no_context:
  assumes "decodeImage env (item_file item) = Inr decoded"
      and "makeCanvas env (width (computeOutputSize (decoded_width decoded) (decoded_height decoded) options))
             (height (computeOutputSize (decoded_width decoded) (decoded_height decoded) options))
           = Inr canvas"
      and "getContext env canvas = Inr None"
  shows "convertImage_try env item options t =
    (Inl (ErrorObj ''2D canvas context not available.''),
     t @ [EvDecode (item_file item),
          EvMakeCanvas (width (computeOutputSize (decoded_width decoded) (decoded_height decoded) options))
            (height (computeOutputSize (decoded_width decoded) (decoded_height decoded) options)),
          EvGetContext canvas])"
  using assms by (simp add: convertImage_try_def prepareContext_def Let_def step_simps)

subsection \<open>The runs of the test suite\<close>

text \<open>"Should convert image successfully with keep mode" and "should close
  bitmap after drawing": the decoded bitmap is drawn and closed once.\<close>

lemma convertImage_mock_run:
  "convertImage mockEnv mockItem mockOptions [] =
    (mockItem\<lparr>item_output := Some \<lparr>out_blob = mockBlob, out_type = ''image/png'',
        out_name = ''test.png'', out_size = 4, out_width = 100, out_height = 100\<rparr>,
      status := Done\<rparr>,
     [EvDecode 0, EvMakeCanvas 100 100, EvGetContext 0, EvClearRect 100 100,
      EvSmoothingEnabled True, EvSmoothingQuality SmoothHigh,
      EvDrawImage (BitmapSource 1)
        \<lparr>sx = 0, sy = 0, sw = 100, sh = 100, dx = 0, dy = 0, dw = 100, dh = 100\<rparr>,
      EvClose 1, EvCanvasToBlob 0 ''image/png'' (9 / 10)])"
  by (simp add: run_defs)

text \<open>"Should handle bitmap resize with high quality when enabled": the decoded
  bitmap is closed when the resized one replaces it, the resized one after the
  draw.\<close>

lemma convertImage_mock_resize_run:
  "convertImage mockEnv mockItem
     (mockOptions\<lparr>sizeMode := Pixels, opt_w := 50, opt_h := 50, fit := Stretch,
        bmpResizeQuality := ResizeHigh\<rparr>) [] =
    (mockItem\<lparr>item_output := Some \<lparr>out_blob = mockBlob, out_type = ''image/png'',
        out_name = ''test.png'', out_size = 4, out_width = 50, out_height = 50\<rparr>,
      status := Done\<rparr>,
     [EvDecode 0, EvMakeCanvas 50 50, EvGetContext 0, EvClearRect 50 50,
      EvSmoothingEnabled True, EvSmoothingQuality SmoothHigh,
      EvCreateImageBitmap 1 50 50 ResizeHigh, EvClose 1,
      EvDrawImage (BitmapSource 2)
        \<lparr>sx = 0, sy = 0, sw = 50, sh = 50, dx = 0, dy = 0, dw = 50, dh = 50\<rparr>,
      EvClose 2, EvCanvasToBlob 0 ''image/png'' (9 / 10)])"
  by (simp add: run_defs)

text \<open>A failure of the encoder comes after the close.\<close>

lemma convertImage_encode_failure_run:
  "convertImage noAvifEnv mockItem (mockOptions\<lparr>opt_type := ''image/avif''\<rparr>) [] =
    (mockItem\<lparr>status := Error, error := Some ''Canvas encoding failed.''\<rparr>,
     [EvDecode 0, EvMakeCanvas 100 100, EvGetContext 0, EvClearRect 100 100,
      EvSmoothingEnabled True, EvSmoothingQuality SmoothHigh,
      EvDrawImage (BitmapSource 1)
        \<lparr>sx = 0, sy = 0, sw = 100, sh = 100, dx = 0, dy = 0, dw = 100, dh = 100\<rparr>,
      EvClose 1, EvCanvasToBlob 0 ''image/avif'' (9 / 10)])"
  by (simp add: run_defs noAvifEnv_def)

text \<open>A draw that throws, and a resize that rejects, leave the \<^verbatim>\<open>try\<close> block
  before any \<^verbatim>\<open>close()\<close>.\<close>

lemma convertImage_draw_failure_run:
  "convertImage (mockEnv\<lparr>drawImage := (\<lambda>ctx src rect. Some (ErrorObj ''InvalidStateError''))\<rparr>)
     mockItem mockOptions [] =
    (mockItem\<lparr>status := Error, error := Some ''InvalidStateError''\<rparr>,
     [EvDecode 0, EvMakeCanvas 100 100, EvGetContext 0, EvClearRect 100 100,
      EvSmoothingEnabled True, EvSmoothingQuality SmoothHigh,
      EvDrawImage (BitmapSource 1)
        \<lparr>sx = 0, sy = 0, sw = 100, sh = 100, dx = 0, dy = 0, dw = 100, dh = 100\<rparr>])"
  by (simp add: run_defs)

lemma convertImage_resize_failure_run:
  "convertImage (mockEnv\<lparr>createImageBitmap := (\<lambda>bmp wd ht q. Inl (ErrorObj ''InvalidStateError''))\<rparr>)
     mockItem
     (mockOptions\<lparr>sizeMode := Pixels, opt_w := 50, opt_h := 50, fit := Stretch,
        bmpResizeQuality := ResizeHigh\<rparr>) [] =
    (mockItem\<lparr>status := Error, error := Some ''InvalidStateError''\<rparr>,
     [EvDecode 0, EvMakeCanvas 50 50, EvGetContext 0, EvClearRect 50 50,
      EvSmoothingEnabled True, EvSmoothingQuality SmoothHigh,
      EvCreateImageBitmap 1 50 50 ResizeHigh])"
  by (simp add: run_defs)

subsection \<open>Which step throws\<close>

lemma convertImage_try_decode_throws:
  "decodeImage env (item_file item) = Inl v
    \<Longrightarrow> convertImage_try env item options t = (Inl v, t @ [EvDecode (item_file item)])"
  by (simp add: convertImage_try_def step_simps)

text \<open>C3. The claim: when decoding yields a bitmap, \<^verbatim>\<open>close()\<close> is called exactly
  once on every bitmap the run owns, on every exit path, failure included. In
  the case "should handle context creation failure" of the test suite the
  decoded bitmap (handle 1) is never closed: the \<^verbatim>\<open>throw\<close> behind the
  \<^verbatim>\<open>getContext\<close> call leaves the \<^verbatim>\<open>try\<close> block before the only \<^verbatim>\<open>close()\<close>
  calls, and the \<^verbatim>\<open>catch\<close> block has none.\<close>

theorem convertImage_no_context_never_closes:
  "convertImage noContextEnv mockItem mockOptions [] =
     (mockItem\<lparr>status := Error, error := Some ''2D canvas context not available.''\<rparr>,
      [EvDecode 0, EvMakeCanvas 100 100, EvGetContext 0]) \<and>
   decodeImage noContextEnv (item_file mockItem) = Inr (DecodedBitmap mockBitmap 100 100) \<and>
   count_list (snd (convertImage noContextEnv mockItem mockOptions []))
     (EvClose (bmp_id mockBitmap)) = 0"
  by (simp add: run_defs noContextEnv_def)

text \<open>C4. The claim: after \<^verbatim>\<open>convertImage\<close> resolves, also for an item converted
  with success before and with failure now, \<^verbatim>\<open>error\<close> is set exactly when the
  status is \<^verbatim>\<open>error\<close> and \<^verbatim>\<open>output\<close> is set exactly when the status is \<^verbatim>\<open>done\<close>.
  With an encoder that has no AVIF, the mock item converted to PNG and then to
  AVIF ends with the status \<^verbatim>\<open>error\<close> and the PNG output still set.\<close>

theorem convertImage_stale_output_counterexample:
  "status (fst (convertImage noAvifEnv (fst (convertImage noAvifEnv mockItem mockOptions []))
       (mockOptions\<lparr>opt_type := ''image/avif''\<rparr>) [])) = Error \<and>
   item_output (fst (convertImage noAvifEnv (fst (convertImage noAvifEnv mockItem mockOptions []))
       (mockOptions\<lparr>opt_type := ''image/avif''\<rparr>) []))
     = Some \<lparr>out_blob = mockBlob, out_type = ''image/png'', out_name = ''test.png'',
         out_size = 4, out_width = 100, out_height = 100\<rparr> \<and>
   (item_output (fst (convertImage noAvifEnv (fst (convertImage noAvifEnv mockItem mockOptions []))
       (mockOptions\<lparr>opt_type := ''image/avif''\<rparr>) [])) \<noteq> None)
     \<noteq> (status (fst (convertImage noAvifEnv (fst (convertImage noAvifEnv mockItem mockOptions []))
       (mockOptions\<lparr>opt_type := ''image/avif''\<rparr>) [])) = Done)"
  by (simp add: run_defs noAvifEnv_def)

text \<open>C4, amended. After \<^verbatim>\<open>convertImage\<close> resolves the status is \<^verbatim>\<open>done\<close> or
  \<^verbatim>\<open>error\<close>; \<^verbatim>\<open>error\<close> is set exactly when the status is \<^verbatim>\<open>error\<close>; with the
  status \<^verbatim>\<open>done\<close> the output is set; with the status \<^verbatim>\<open>error\<close> the output is
  what it was before the call, set or not.\<close>

theorem convertImage_status_fields:
  "case convertImage env item options t of (item', t') \<Rightarrow>
     (error item' \<noteq> None) = (status item' = Error) \<and>
     (status item' = Done \<and> item_output item' \<noteq> None \<or>
      status item' = Error \<and> item_output item' = item_output item)"
  by (auto simp: convertImage_def Let_def split: prod.splits sum.splits)

text \<open>Both cases at the mock item: the run that succeeds, and the run without a
  context.\<close>

theorem convertImage_status_fields_witness:
  "status (fst (convertImage mockEnv mockItem mockOptions [])) = Done \<and>
   error (fst (convertImage mockEnv mockItem mockOptions [])) = None \<and>
   item_output (fst (convertImage mockEnv mockItem mockOptions [])) \<noteq> None \<and>
   status (fst (convertImage noContextEnv mockItem mockOptions [])) = Error \<and>
   error (fst (convertImage noContextEnv mockItem mockOptions [])) \<noteq> None \<and>
   item_output (fst (convertImage noContextEnv mockItem mockOptions [])) = item_output mockItem"
  using convertImage_status_fields
      [where env = mockEnv and item = mockItem and options = mockOptions and t = "[]"]
    convertImage_status_fields
      [where env = noContextEnv and item = mockItem and options = mockOptions and t = "[]"]
  by (simp add: run_defs noContextEnv_def)

subsection \<open>A step that throws\<close>














section \<open>The item list and the scheduler\<close>

text \<open>C8. A request to convert an item whose status is \<^verbatim>\<open>converting\<close> is a
  no-op: \<^verbatim>\<open>convertOne\<close> returns at its guard, the item list with every field of
  the item is as before, and no call (decode, draw, encode or any other) is
  made.\<close>

theorem convertOne_converting_noop:
  assumes "items app ident = Some item" "status item = Converting"
  shows "convertOne env ident optionsOverride app = app"
  using assms by (simp add: convertOne_def)

theorem convertOne_converting_noop_witness:
  "items \<lparr>items = [''1'' \<mapsto> mockItem\<lparr>status := Converting\<rparr>], calls = []\<rparr> ''1''
     = Some (mockItem\<lparr>status := Converting\<rparr>) \<and>
   status (mockItem\<lparr>status := Converting\<rparr>) = Converting \<and>
   convertOne mockEnv ''1'' None \<lparr>items = [''1'' \<mapsto> mockItem\<lparr>status := Converting\<rparr>], calls = []\<rparr>
     = \<lparr>items = [''1'' \<mapsto> mockItem\<lparr>status := Converting\<rparr>], calls = []\<rparr>"
  using convertOne_converting_noop [where
      app = "\<lparr>items = [''1'' \<mapsto> mockItem\<lparr>status := Converting\<rparr>], calls = []\<rparr>"
      and ident = "''1''" and item = "mockItem\<lparr>status := Converting\<rparr>"
      and env = mockEnv and optionsOverride = None]
  by simp

text \<open>An item that is not \<^verbatim>\<open>converting\<close> is converted: the guard is what makes
  the difference.\<close>

lemma convertOne_ready_converts:
  "convertOne mockEnv ''1'' None \<lparr>items = [''1'' \<mapsto> mockItem], calls = []\<rparr>
     = \<lparr>items = [''1'' \<mapsto> fst (convertImage mockEnv mockItem mockOptions [EvRender])],
        calls = snd (convertImage mockEnv mockItem mockOptions [EvRender]) @ [EvRender]\<rparr>"
  by (simp add: convertOne_def convertImage_def mockEnv_def mockItem_def split: prod.splits)

text \<open>C9. For every hardware-concurrency hint \<open>h\<close>, an integer of at least 1, the
  concurrency level is \<open>clamp (h - 1) 1 6\<close>: at least 1, at most 6, and 4 for
  a hint of 5. The difference \<open>h - 1\<close> is a double for a hint up to \<open>2 ^ 53\<close>,
  and beyond that both sides are 6.\<close>

theorem convertAll_concurrency_level:
  fixes h :: int
  assumes "1 \<le> h"
  shows "convertAll_concurrency (Some (of_int h)) = clamp (of_int h - 1) 1 6 \<and>
         1 \<le> convertAll_concurrency (Some (of_int h)) \<and>
         convertAll_concurrency (Some (of_int h)) \<le> 6 \<and>
         convertAll_concurrency (Some 5) = 4"
proof -
  have ne: "(of_int h :: rat) \<noteq> 0" using assms by simp
  have c: "(of_int h - 1 :: rat) = of_int (h - 1)" by simp
  have main: "clamp (fl (of_int h - 1)) 1 6 = clamp (of_int h - 1) 1 6"
  proof (cases "h - 1 \<le> 2 ^ 53")
    case True
    then have "fl (of_int (h - 1)) = of_int (h - 1)" using assms by (intro fl_of_int) simp_all
    then show ?thesis by (simp only: c)
  next
    case False
    then have big: "(6::rat) \<le> of_int (h - 1)" by simp
    have "fl (of_int 6) = of_int 6" by (rule fl_of_int) simp_all
    then have "fl 6 = 6" by simp
    moreover have "fl 6 \<le> fl (of_int (h - 1))" using big by (intro fl_mono) simp_all
    ultimately have "6 \<le> fl (of_int (h - 1))" by simp
    then have "clamp (fl (of_int (h - 1))) 1 6 = clamp (of_int (h - 1)) 1 6"
      using big by (simp add: clamp_def)
    then show ?thesis by (simp only: c)
  qed
  have eq: "convertAll_concurrency (Some (of_int h)) = clamp (of_int h - 1) 1 6"
    using ne main by (simp add: convertAll_concurrency_def js_sub_def)
  have "fl (of_int 4) = of_int 4" by (rule fl_of_int) simp_all
  then have five: "convertAll_concurrency (Some 5) = 4"
    by (simp add: convertAll_concurrency_def js_sub_def clamp_def)
  have "1 \<le> clamp (of_int h - 1) 1 6 \<and> clamp (of_int h - 1) 1 6 \<le> 6"
    by (simp add: clamp_def)
  then show ?thesis using five eq by simp
qed

text \<open>The hints 5, 1 and 64.\<close>

theorem convertAll_concurrency_level_witness:
  "(1::int) \<le> 5 \<and> (1::int) \<le> 1 \<and> (1::int) \<le> 64 \<and>
   convertAll_concurrency (Some 5) = clamp (5 - 1) 1 6 \<and> clamp (5 - 1) 1 6 = 4 \<and>
   convertAll_concurrency (Some 1) = 1 \<and>
   convertAll_concurrency (Some 64) = 6"
  using convertAll_concurrency_level [of 5] convertAll_concurrency_level [of 1]
    convertAll_concurrency_level [of 64]
  by (simp add: clamp_def)

text \<open>Without a hint, and for a hint of \<open>0\<close>, which no browser reports, \<^verbatim>\<open>||\<close>
  puts 4 in its place and the level is 3.\<close>

lemma convertAll_concurrency_fallback:
  "convertAll_concurrency None = 3 \<and> convertAll_concurrency (Some 0) = 3"
proof -
  have "fl (of_int 3) = of_int 3" by (rule fl_of_int) simp_all
  then show ?thesis by (simp add: convertAll_concurrency_def js_sub_def clamp_def)
qed

end
